theory Spec2Isabelle
  imports Main "HOL-Library.AList"
begin

section \<open>JavaScript values and objects\<close>

text \<open>
  The helpers of the search API are TypeScript. Their data are plain JavaScript objects
  whose properties hold numbers and strings. A number is modelled as an exact integer or
  \<open>NaN\<close>: the only numbers the helpers produce come from the mapping tables and from
  \<open>parseInt\<close>. JavaScript rounds an integer beyond \<open>2^53\<close> to the nearest double and prints
  one from \<open>10^21\<close> on in exponent notation; the model keeps the mathematical value, so
  statements about printing and parsing are made for safe integers (\<open>safe_integer\<close>).

  A string is its sequence of UTF-8 bytes (\<open>char\<close> is a byte), so an ASCII string is
  itself and the arrow of the error messages is three bytes.

  An object is the list of its own properties in insertion order, as
  \<open>Object.entries\<close> reads it; a property can hold \<open>undefined\<close>.
\<close>

datatype number = Integer int | NaN

datatype jsval = Undefined | Number number | Str string

type_synonym 'v object = "(string \<times> 'v) list"

definition safe_integer :: "int \<Rightarrow> bool" where
  "safe_integer i = (\<bar>i\<bar> \<le> 9007199254740991)"

text \<open>\<open>obj[key]\<close> on an object of numbers and strings: a missing property reads \<open>undefined\<close>.\<close>

definition get :: "jsval object \<Rightarrow> string \<Rightarrow> jsval" where
  "get obj k = (case map_of obj k of None \<Rightarrow> Undefined | Some v \<Rightarrow> v)"

text \<open>
  \<open>obj[key] = value\<close>: an existing property keeps its place, a new one goes last.
\<close>

definition assign :: "string \<Rightarrow> 'v \<Rightarrow> 'v object \<Rightarrow> 'v object" where
  "assign k v obj = AList.update k v obj"

text \<open>\<open>{...a, ...b}\<close>: the properties of \<open>a\<close>, then those of \<open>b\<close> assigned in their order.\<close>

definition spread :: "'v object \<Rightarrow> 'v object \<Rightarrow> 'v object" where
  "spread a b = fold (\<lambda>(k, v). assign k v) b a"

text \<open>
  \<open>x === y\<close> on these values: \<open>NaN\<close> is not equal to itself, everything else is equal
  when it is the same value. \<open>x !== y\<close> is its negation.
\<close>

definition strict_eq :: "jsval \<Rightarrow> jsval \<Rightarrow> bool" where
  "strict_eq x y = (x = y \<and> x \<noteq> Number NaN)"

text \<open>Truthiness of a string: every string but the empty one.\<close>

definition truthy :: "string option \<Rightarrow> bool" where
  "truthy s = (case s of None \<Rightarrow> False | Some t \<Rightarrow> t \<noteq> [])"

subsection \<open>Numbers and strings\<close>

definition digit_char :: "nat \<Rightarrow> char" where
  "digit_char d = char_of (48 + d)"

definition is_digit :: "char \<Rightarrow> bool" where
  "is_digit c = (48 \<le> (of_char c :: nat) \<and> (of_char c :: nat) \<le> 57)"

definition digit_value :: "char \<Rightarrow> nat" where
  "digit_value c = of_char c - 48"

fun show_nat :: "nat \<Rightarrow> string" where
  "show_nat n =
     (if n < 10 then [digit_char n] else show_nat (n div 10) @ [digit_char (n mod 10)])"

declare show_nat.simps [simp del]

text \<open>\<open>Number.prototype.toString\<close> at radix 10, for \<open>NaN\<close> and for an integer.\<close>

fun number_to_string :: "number \<Rightarrow> string" where
  "number_to_string NaN = ''NaN''"
| "number_to_string (Integer i) =
     (if i < 0 then CHR ''-'' # show_nat (nat (- i)) else show_nat (nat i))"

text \<open>\<open>String(value)\<close>, which is also the conversion of a template literal.\<close>

fun to_string :: "jsval \<Rightarrow> string" where
  "to_string Undefined = ''undefined''"
| "to_string (Number n) = number_to_string n"
| "to_string (Str s) = s"

text \<open>
  The white space \<open>parseInt\<close> skips (WhiteSpace and LineTerminator of ECMAScript), each
  as its UTF-8 bytes: tab, LF, VT, FF, CR, space, U+00A0, U+1680, U+2000 to U+200A,
  U+2028, U+2029, U+202F, U+205F, U+3000 and U+FEFF.
\<close>

definition white_space :: "string list" where
  "white_space =
     [[CHR 0x09], [CHR 0x0A], [CHR 0x0B], [CHR 0x0C], [CHR 0x0D], [CHR 0x20],
      [CHR 0xC2, CHR 0xA0], [CHR 0xE1, CHR 0x9A, CHR 0x80],
      [CHR 0xE2, CHR 0x80, CHR 0x80], [CHR 0xE2, CHR 0x80, CHR 0x81],
      [CHR 0xE2, CHR 0x80, CHR 0x82], [CHR 0xE2, CHR 0x80, CHR 0x83],
      [CHR 0xE2, CHR 0x80, CHR 0x84], [CHR 0xE2, CHR 0x80, CHR 0x85],
      [CHR 0xE2, CHR 0x80, CHR 0x86], [CHR 0xE2, CHR 0x80, CHR 0x87],
      [CHR 0xE2, CHR 0x80, CHR 0x88], [CHR 0xE2, CHR 0x80, CHR 0x89],
      [CHR 0xE2, CHR 0x80, CHR 0x8A], [CHR 0xE2, CHR 0x80, CHR 0xA8],
      [CHR 0xE2, CHR 0x80, CHR 0xA9], [CHR 0xE2, CHR 0x80, CHR 0xAF],
      [CHR 0xE2, CHR 0x81, CHR 0x9F], [CHR 0xE3, CHR 0x80, CHR 0x80],
      [CHR 0xEF, CHR 0xBB, CHR 0xBF]]"

definition starts_with :: "string \<Rightarrow> string \<Rightarrow> bool" where
  "starts_with w s = (w \<noteq> [] \<and> take (length w) s = w)"

function trim_start :: "string \<Rightarrow> string" where
  "trim_start s =
     (case find (\<lambda>w. starts_with w s) white_space of
        None \<Rightarrow> s
      | Some w \<Rightarrow> trim_start (drop (length w) s))"
  by pat_completeness auto
termination
proof (relation "measure length")
  show "wf (measure length)" by simp
next
  fix s :: string and w :: string
  assume "find (\<lambda>w. starts_with w s) white_space = Some w"
  then have "starts_with w s"
    by (auto simp: find_Some_iff)
  then have "w \<noteq> []" and "take (length w) s = w"
    by (simp_all add: starts_with_def)
  then have "s \<noteq> []"
    by auto
  with \<open>w \<noteq> []\<close> show "(drop (length w) s, s) \<in> measure length"
    by (cases s; cases w) auto
qed

declare trim_start.simps [simp del]

definition digits_value :: "string \<Rightarrow> nat" where
  "digits_value ds = foldl (\<lambda>a c. 10 * a + digit_value c) 0 ds"

text \<open>
  \<open>parseInt(string, 10)\<close>: skip leading white space, read an optional sign, then the
  longest run of decimal digits; \<open>NaN\<close> when that run is empty. What follows the digits
  is ignored.
\<close>

definition parseInt :: "string \<Rightarrow> number" where
  "parseInt string =
     (let S = trim_start string;
          sign = (if S \<noteq> [] \<and> hd S = CHR ''-'' then - 1 else 1);
          S' = (if S \<noteq> [] \<and> (hd S = CHR ''+'' \<or> hd S = CHR ''-'') then tl S else S);
          Z = takeWhile is_digit S'
      in if Z = [] then NaN else Integer (sign * int (digits_value Z)))"

section \<open>The URL codec (utils/api-helpers.ts)\<close>

text \<open>
  The specification calls \<open>buildSearchAPIUrl\<close> buildUrl, the composition of
  \<open>parseQueryParams\<close> and \<open>toSearchAPIParams\<close> parseUrl, \<open>mapToAPIParams\<close> translate and
  the keys \<open>geo_id\<close>, \<open>cat_id\<close>, \<open>meta_code\<close>, \<open>summary\<close>, \<open>country\<close>, \<open>country_id\<close>
  geoId, categoryId, metaCode, resultFormat, countryCode, countryId.
\<close>

type_synonym SearchAPIParams = "jsval object"

definition SEARCH_API_URL :: string where
  "SEARCH_API_URL = ''https://search.vivastreet.co.uk/ajax/regions_tree.php''"

definition DEFAULT_API_PARAMS :: SearchAPIParams where
  "DEFAULT_API_PARAMS =
     [(''summary'', Number (Integer 1)), (''country'', Str ''GB''), (''country_id'', Str ''GB'')]"

subsection \<open>\<open>URLSearchParams\<close>: the form-urlencoded serializer and parser\<close>

text \<open>
  \<open>URLSearchParams.toString\<close> leaves ASCII letters, digits and \<open>* - . _\<close> as they are,
  writes a space as \<open>+\<close> and every other byte as \<open>%\<close> and two upper-case hexadecimal
  digits; pairs are \<open>name=value\<close>, joined by \<open>&\<close>.
\<close>

definition url_safe :: "char \<Rightarrow> bool" where
  "url_safe c =
     (let n = (of_char c :: nat)
      in (48 \<le> n \<and> n \<le> 57) \<or> (65 \<le> n \<and> n \<le> 90) \<or> (97 \<le> n \<and> n \<le> 122)
         \<or> c = CHR ''*'' \<or> c = CHR ''-'' \<or> c = CHR ''.'' \<or> c = CHR ''_'')"

definition hex_digit :: "nat \<Rightarrow> char" where
  "hex_digit d = (if d < 10 then char_of (48 + d) else char_of (55 + d))"

definition percent_encode_byte :: "char \<Rightarrow> string" where
  "percent_encode_byte c =
     (if url_safe c then [c]
      else if c = CHR '' '' then ''+''
      else [CHR ''%'', hex_digit ((of_char c :: nat) div 16), hex_digit ((of_char c :: nat) mod 16)])"

definition urlencode :: "string \<Rightarrow> string" where
  "urlencode s = concat (map percent_encode_byte s)"

fun join :: "string \<Rightarrow> string list \<Rightarrow> string" where
  "join sep [] = []"
| "join sep [x] = x"
| "join sep (x # y # ys) = x @ sep @ join sep (y # ys)"

definition URLSearchParams_toString :: "(string \<times> string) list \<Rightarrow> string" where
  "URLSearchParams_toString ps =
     join ''&'' (map (\<lambda>(name, v). urlencode name @ ''='' @ urlencode v) ps)"

text \<open>
  The parser behind \<open>URL.searchParams\<close>: split the query at \<open>&\<close>, drop empty pieces,
  split each piece at its first \<open>=\<close>, turn \<open>+\<close> into a space and decode \<open>%XX\<close>; a
  \<open>%\<close> that two hexadecimal digits do not follow stays as it is. The decoded bytes are
  read as UTF-8; bytes that are no UTF-8, which the parser would replace by U+FFFD, are
  kept as they are here.
\<close>

fun split_on :: "char \<Rightarrow> string \<Rightarrow> string list" where
  "split_on c [] = [[]]"
| "split_on c (x # xs) =
     (if x = c then [] # split_on c xs
      else (case split_on c xs of [] \<Rightarrow> [[x]] | y # ys \<Rightarrow> (x # y) # ys))"

definition hex_value :: "char \<Rightarrow> nat option" where
  "hex_value c =
     (let n = (of_char c :: nat)
      in if 48 \<le> n \<and> n \<le> 57 then Some (n - 48)
         else if 65 \<le> n \<and> n \<le> 70 then Some (n - 55)
         else if 97 \<le> n \<and> n \<le> 102 then Some (n - 87)
         else None)"

fun percent_decode :: "string \<Rightarrow> string" where
  "percent_decode (c # h1 # h2 # cs) =
     (if c = CHR ''%'' then
        (case (hex_value h1, hex_value h2) of
           (Some a, Some b) \<Rightarrow> char_of (16 * a + b) # percent_decode cs
         | _ \<Rightarrow> c # percent_decode (h1 # h2 # cs))
      else c # percent_decode (h1 # h2 # cs))"
| "percent_decode (c # cs) = c # percent_decode cs"
| "percent_decode [] = []"

definition plus_to_space :: "string \<Rightarrow> string" where
  "plus_to_space s = map (\<lambda>c. if c = CHR ''+'' then CHR '' '' else c) s"

definition urldecode :: "string \<Rightarrow> string" where
  "urldecode s = percent_decode (plus_to_space s)"

definition parse_pair :: "string \<Rightarrow> string \<times> string" where
  "parse_pair piece =
     (let name = takeWhile (\<lambda>c. c \<noteq> CHR ''='') piece;
          v = drop (Suc (length name)) piece
      in (urldecode name, urldecode v))"

definition parse_urlencoded :: "string \<Rightarrow> (string \<times> string) list" where
  "parse_urlencoded q = map parse_pair (filter (\<lambda>piece. piece \<noteq> []) (split_on (CHR ''&'') q))"

text \<open>
  \<open>new URL(url)\<close> on an absolute URL: leading and trailing bytes up to the space are
  stripped, tabs and newlines are removed, the fragment starts at the first \<open>#\<close> and the
  query is what follows the first \<open>?\<close> before it. The function is applied to URLs the
  browser driver hands over (\<open>response.url()\<close>, \<open>request.url()\<close>); the \<open>TypeError\<close> of
  \<open>new URL\<close> on a string that is no URL is outside the model. The URL parser also
  percent-encodes some raw bytes of the query, which the form-urlencoded parser decodes
  back, so the pairs are those of the raw query.
\<close>

definition c0_or_space :: "char \<Rightarrow> bool" where
  "c0_or_space c = ((of_char c :: nat) \<le> 32)"

definition tab_or_newline :: "char \<Rightarrow> bool" where
  "tab_or_newline c = (c = CHR 0x09 \<or> c = CHR 0x0A \<or> c = CHR 0x0D)"

definition url_input :: "string \<Rightarrow> string" where
  "url_input s =
     filter (\<lambda>c. \<not> tab_or_newline c) (rev (dropWhile c0_or_space (rev (dropWhile c0_or_space s))))"

definition url_query :: "string \<Rightarrow> string" where
  "url_query url =
     (let s = takeWhile (\<lambda>c. c \<noteq> CHR ''#'') (url_input url)
      in drop 1 (dropWhile (\<lambda>c. c \<noteq> CHR ''?'') s))"

subsection \<open>\<open>buildSearchAPIUrl\<close>, \<open>parseQueryParams\<close>, \<open>toSearchAPIParams\<close>\<close>

text \<open>
  The entries \<open>buildSearchAPIUrl\<close> appends to its \<open>URLSearchParams\<close>: those of the merged
  object that are not \<open>undefined\<close> (the type has no \<open>null\<close>), each as \<open>String(value)\<close>.
\<close>

definition search_params :: "SearchAPIParams \<Rightarrow> (string \<times> string) list" where
  "search_params params =
     (let mergedParams = spread DEFAULT_API_PARAMS params
      in fold (\<lambda>(key, v) searchParams.
                 if v \<noteq> Undefined then searchParams @ [(key, to_string v)] else searchParams)
           mergedParams [])"

definition buildSearchAPIUrl :: "SearchAPIParams \<Rightarrow> string" where
  "buildSearchAPIUrl params = SEARCH_API_URL @ ''?'' @ URLSearchParams_toString (search_params params)"

text \<open>
  \<open>params[key] = value\<close> on the plain object \<open>params\<close> of \<open>parseQueryParams\<close>: the key
  \<open>__proto__\<close> is the accessor of \<open>Object.prototype\<close>, whose setter ignores a string, so
  it stores nothing; every other key is stored, a later pair replacing an earlier one.
\<close>

definition record_assign :: "string \<Rightarrow> string \<Rightarrow> string object \<Rightarrow> string object" where
  "record_assign key v params = (if key = ''__proto__'' then params else assign key v params)"

definition parseQueryParams :: "string \<Rightarrow> string object" where
  "parseQueryParams url =
     fold (\<lambda>(key, v) params. record_assign key v params) (parse_urlencoded (url_query url)) []"

text \<open>
  One line of \<open>toSearchAPIParams\<close>:
  \<open>if (params.k) result.k = parseInt(params.k, 10)\<close> for an integer field and
  \<open>if (params.k) result.k = params.k\<close> for a string field. The test is the truthiness
  of the raw string.
\<close>

definition int_field :: "string \<Rightarrow> string object \<Rightarrow> SearchAPIParams \<Rightarrow> SearchAPIParams" where
  "int_field key params result =
     (if truthy (map_of params key)
      then assign key (Number (parseInt (the (map_of params key)))) result
      else result)"

definition str_field :: "string \<Rightarrow> string object \<Rightarrow> SearchAPIParams \<Rightarrow> SearchAPIParams" where
  "str_field key params result =
     (if truthy (map_of params key)
      then assign key (Str (the (map_of params key))) result
      else result)"

definition toSearchAPIParams :: "string object \<Rightarrow> SearchAPIParams" where
  "toSearchAPIParams params =
     (str_field ''country_id'' params
       (str_field ''country'' params
         (int_field ''summary'' params
           (str_field ''meta_code'' params
             (int_field ''cat_id'' params
               (int_field ''geo_id'' params []))))))"

text \<open>The fields \<open>toSearchAPIParams\<close> recognizes, by the conversion it applies.\<close>

definition integer_fields :: "string list" where
  "integer_fields = [''geo_id'', ''cat_id'', ''summary'']"

definition string_fields :: "string list" where
  "string_fields = [''meta_code'', ''country'', ''country_id'']"

section \<open>The mapping registry (api/mappings)\<close>

text \<open>
  The two tables are object literals read as \<open>TABLE[label]\<close>. Such a read finds the
  table's own entry, and for a label that is no entry but a property name of
  \<open>Object.prototype\<close> it finds the inherited property (a function, or the prototype
  itself for \<open>__proto__\<close>): a truthy value with no \<open>cat_id\<close>, \<open>meta_code\<close> or \<open>geo_id\<close>.
  Every other label reads \<open>undefined\<close>.
\<close>

datatype 'a property = Own 'a | Inherited | Missing

definition Object_prototype_keys :: "string list" where
  "Object_prototype_keys =
     [''constructor'', ''__defineGetter__'', ''__defineSetter__'', ''hasOwnProperty'',
      ''__lookupGetter__'', ''__lookupSetter__'', ''isPrototypeOf'', ''propertyIsEnumerable'',
      ''toString'', ''valueOf'', ''__proto__'', ''toLocaleString'']"

definition lookup :: "'a object \<Rightarrow> string \<Rightarrow> 'a property" where
  "lookup table key =
     (case map_of table key of
        Some m \<Rightarrow> Own m
      | None \<Rightarrow> if key \<in> set Object_prototype_keys then Inherited else Missing)"

record CategoryMapping =
  label :: string
  cat_id :: number
  meta_code :: string

definition CATEGORY_MAPPINGS :: "CategoryMapping object" where
  "CATEGORY_MAPPINGS =
     [(''Home Appliances'',
        \<lparr>label = ''Home Appliances'', cat_id = Integer 93, meta_code = ''appliances_furniture''\<rparr>),
      (''Escorts and Massages'',
        \<lparr>label = ''Escorts and Massages'', cat_id = Integer 88, meta_code = ''adult_services''\<rparr>)]"

definition getCategoryMapping :: "string \<Rightarrow> CategoryMapping property" where
  "getCategoryMapping categoryLabel = lookup CATEGORY_MAPPINGS categoryLabel"

record LocationMapping =
  label :: string
  geo_id :: number

definition LOCATION_MAPPINGS :: "LocationMapping object" where
  "LOCATION_MAPPINGS =
     [(''London'', \<lparr>label = ''London'', geo_id = Integer 7\<rparr>),
      ([], \<lparr>label = [], geo_id = Integer 0\<rparr>)]"

definition getLocationMapping :: "string \<Rightarrow> LocationMapping property" where
  "getLocationMapping locationLabel = lookup LOCATION_MAPPINGS locationLabel"

section \<open>The parameter translator (api/search-api.helper.ts)\<close>

record SearchParameters =
  category :: "string option"
  location :: "string option"
  keyword :: "string option"

text \<open>Every failure of the helpers is \<open>throw new Error(message)\<close>.\<close>

datatype error = Error string

definition arrow :: string where
  "arrow = [CHR 0xE2, CHR 0x86, CHR 0x92]"

definition category_not_found :: "string \<Rightarrow> string" where
  "category_not_found c =
     ''Category mapping not found for: '' @ [CHR 0x22] @ c @ [CHR 0x22] @ ''.\<newline>'' @
     ''Add mapping to api/mappings/category-mappings.ts\<newline>\<newline>'' @
     ''To find the mapping:\<newline>'' @
     ''1. Open browser DevTools '' @ arrow @ '' Network tab\<newline>'' @
     ''2. Select '' @ [CHR 0x22] @ c @ [CHR 0x22] @ '' in UI\<newline>'' @
     ''3. Observe request to regions_tree.php\<newline>'' @
     ''4. Record cat_id and meta_code parameters''"

definition location_not_found :: "string \<Rightarrow> string" where
  "location_not_found l =
     ''Location mapping not found for: '' @ [CHR 0x22] @ l @ [CHR 0x22] @ ''.\<newline>'' @
     ''Add mapping to api/mappings/location-mappings.ts\<newline>\<newline>'' @
     ''To find the mapping:\<newline>'' @
     ''1. Open browser DevTools '' @ arrow @ '' Network tab\<newline>'' @
     ''2. Select '' @ [CHR 0x22] @ l @ [CHR 0x22] @ '' in UI\<newline>'' @
     ''3. Observe request to regions_tree.php\<newline>'' @
     ''4. Record geo_id parameter''"

text \<open>
  \<open>mapToAPIParams\<close>: the category is looked up when \<open>params.category\<close> is truthy, the
  location when \<open>params.location !== undefined\<close>; the keyword is not read.
\<close>

definition map_category :: "SearchParameters \<Rightarrow> error + SearchAPIParams" where
  "map_category params =
     (if truthy (category params) then
        (case getCategoryMapping (the (category params)) of
           Missing \<Rightarrow> Inl (Error (category_not_found (the (category params))))
         | Own categoryMapping \<Rightarrow>
             Inr (assign ''meta_code'' (Str (meta_code categoryMapping))
                   (assign ''cat_id'' (Number (cat_id categoryMapping)) []))
         | Inherited \<Rightarrow>
             Inr (assign ''meta_code'' Undefined (assign ''cat_id'' Undefined [])))
      else Inr [])"

definition map_location :: "SearchParameters \<Rightarrow> SearchAPIParams \<Rightarrow> error + SearchAPIParams" where
  "map_location params apiParams =
     (case location params of
        None \<Rightarrow> Inr apiParams
      | Some l \<Rightarrow>
          (case getLocationMapping l of
             Missing \<Rightarrow> Inl (Error (location_not_found l))
           | Own locationMapping \<Rightarrow> Inr (assign ''geo_id'' (Number (geo_id locationMapping)) apiParams)
           | Inherited \<Rightarrow> Inr (assign ''geo_id'' Undefined apiParams)))"

definition mapToAPIParams :: "SearchParameters \<Rightarrow> error + SearchAPIParams" where
  "mapToAPIParams params =
     (case map_category params of
        Inl e \<Rightarrow> Inl e
      | Inr apiParams \<Rightarrow> map_location params apiParams)"

section \<open>The validator (api/search-validator.helper.ts)\<close>

record RequestValidation =
  matched :: bool
  actualParams :: SearchAPIParams
  expectedParams :: SearchAPIParams
  differences :: "string list option"

definition paramsToCompare :: "string list" where
  "paramsToCompare = [''cat_id'', ''geo_id'', ''meta_code'']"

definition difference :: "string \<Rightarrow> jsval \<Rightarrow> jsval \<Rightarrow> string" where
  "difference key expectedValue actualValue =
     key @ '': expected '' @ to_string expectedValue @ '', got '' @ to_string actualValue"

text \<open>The body of the loop of \<open>compareParams\<close>, on the pair (matched, differences).\<close>

fun compare_key :: "SearchAPIParams \<Rightarrow> SearchAPIParams \<Rightarrow> string \<Rightarrow> bool \<times> string list \<Rightarrow> bool \<times> string list" where
  "compare_key actual expected key (m, ds) =
     (let actualValue = get actual key;
          expectedValue = get expected key
      in if expectedValue \<noteq> Undefined then
           (if \<not> strict_eq actualValue expectedValue
            then (False, ds @ [difference key expectedValue actualValue])
            else (m, ds))
         else (m, ds))"

definition compareParams :: "SearchAPIParams \<Rightarrow> SearchAPIParams \<Rightarrow> RequestValidation" where
  "compareParams actual expected =
     (let r = fold (compare_key actual expected) paramsToCompare (True, [])
      in \<lparr>matched = fst r, actualParams = actual, expectedParams = expected,
          differences = (if length (snd r) > 0 then Some (snd r) else None)\<rparr>)"

text \<open>
  A compared key is in mismatch when the expected set defines it and the actual value is
  not \<open>===\<close> to the expected one.
\<close>

definition mismatch :: "SearchAPIParams \<Rightarrow> SearchAPIParams \<Rightarrow> string \<Rightarrow> bool" where
  "mismatch actual expected k =
     (get expected k \<noteq> Undefined \<and> \<not> strict_eq (get actual k) (get expected k))"

text \<open>
  The differences as the specification words them: one line per compared key in mismatch,
  naming the key, the expected value and the actual value.
\<close>

definition spec_differences :: "SearchAPIParams \<Rightarrow> SearchAPIParams \<Rightarrow> string list" where
  "spec_differences actual expected =
     map (\<lambda>k. k @ '': expected '' @ to_string (get expected k) @ '', got '' @ to_string (get actual k))
       (filter (\<lambda>k. get expected k \<noteq> Undefined \<and> \<not> strict_eq (get actual k) (get expected k))
          [''cat_id'', ''geo_id'', ''meta_code''])"

subsection \<open>\<open>JSON.stringify\<close> of a parameter object\<close>

text \<open>
  A property holding \<open>undefined\<close> is left out, \<open>NaN\<close> is written \<open>null\<close>, a string is
  quoted with the quote, the backslash and the control characters escaped.
\<close>

definition lower_hex :: "nat \<Rightarrow> char" where
  "lower_hex d = (if d < 10 then char_of (48 + d) else char_of (87 + d))"

definition json_escape :: "char \<Rightarrow> string" where
  "json_escape c =
     (if c = CHR 0x22 then [CHR 0x5C, CHR 0x22]
      else if c = CHR 0x5C then [CHR 0x5C, CHR 0x5C]
      else if c = CHR 0x08 then [CHR 0x5C, CHR ''b'']
      else if c = CHR 0x0C then [CHR 0x5C, CHR ''f'']
      else if c = CHR 0x0A then [CHR 0x5C, CHR ''n'']
      else if c = CHR 0x0D then [CHR 0x5C, CHR ''r'']
      else if c = CHR 0x09 then [CHR 0x5C, CHR ''t'']
      else if (of_char c :: nat) < 32
        then [CHR 0x5C, CHR ''u'', CHR ''0'', CHR ''0'',
              lower_hex ((of_char c :: nat) div 16), lower_hex ((of_char c :: nat) mod 16)]
      else [c])"

definition json_quote :: "string \<Rightarrow> string" where
  "json_quote s = [CHR 0x22] @ concat (map json_escape s) @ [CHR 0x22]"

fun json_value :: "jsval \<Rightarrow> string" where
  "json_value (Number NaN) = ''null''"
| "json_value (Number (Integer i)) = number_to_string (Integer i)"
| "json_value (Str s) = json_quote s"
| "json_value Undefined = []"

definition JSON_stringify :: "SearchAPIParams \<Rightarrow> string" where
  "JSON_stringify obj =
     ''{'' @ join '','' (map (\<lambda>(k, v). json_quote k @ '':'' @ json_value v)
                          (filter (\<lambda>(k, v). v \<noteq> Undefined) obj)) @ ''}''"

subsection \<open>The interception session\<close>

text \<open>
  The state of a \<open>SearchValidatorHelper\<close>: the number of route handlers the page holds
  for the pattern of the search endpoint (\<open>page.route\<close> adds one, \<open>page.unroute\<close> removes
  all of them) and the captured request, of which only the URL is read.
\<close>

record SearchValidatorHelper =
  routes :: nat
  interceptedRequest :: "string option"

definition new_SearchValidatorHelper :: SearchValidatorHelper where
  "new_SearchValidatorHelper = \<lparr>routes = 0, interceptedRequest = None\<rparr>"

definition startInterception :: "SearchValidatorHelper \<Rightarrow> SearchValidatorHelper" where
  "startInterception s = s\<lparr>interceptedRequest := None, routes := Suc (routes s)\<rparr>"

text \<open>
  The handler \<open>startInterception\<close> registers, run by the browser driver for a request
  whose URL matches the pattern: it stores the request and lets it continue.
\<close>

definition route_handler :: "string \<Rightarrow> SearchValidatorHelper \<Rightarrow> SearchValidatorHelper" where
  "route_handler url s = (if routes s > 0 then s\<lparr>interceptedRequest := Some url\<rparr> else s)"

definition stopInterception :: "SearchValidatorHelper \<Rightarrow> SearchValidatorHelper" where
  "stopInterception s = s\<lparr>routes := 0, interceptedRequest := None\<rparr>"

definition no_request_message :: string where
  "no_request_message =
     ''No search API request was intercepted. '' @
     ''Make sure startInterception() was called before the UI action.''"

definition mismatch_message :: "RequestValidation \<Rightarrow> string" where
  "mismatch_message validation =
     (let joined = (case differences validation of None \<Rightarrow> [] | Some ds \<Rightarrow> join ''\<newline>  - '' ds);
          shown = (if joined = [] then ''Unknown differences'' else joined)
      in ''Intercepted API request parameters do not match expected values:\<newline>'' @
         ''  - '' @ shown @ ''\<newline>\<newline>'' @
         ''Actual params: '' @ JSON_stringify (actualParams validation) @ ''\<newline>'' @
         ''Expected params: '' @ JSON_stringify (expectedParams validation))"

text \<open>
  \<open>validateInterceptedRequest\<close> returns its outcome and the state it leaves: an exception
  leaves the state as it was when it was thrown.
\<close>

definition validateInterceptedRequest ::
    "SearchParameters \<Rightarrow> SearchValidatorHelper \<Rightarrow> (error + unit) \<times> SearchValidatorHelper" where
  "validateInterceptedRequest expected s =
     (case interceptedRequest s of
        None \<Rightarrow> (Inl (Error no_request_message), s)
      | Some requestUrl \<Rightarrow>
          (let actual = toSearchAPIParams (parseQueryParams requestUrl)
           in case mapToAPIParams expected of
                Inl e \<Rightarrow> (Inl e, s)
              | Inr expectedAPIParams \<Rightarrow>
                  (let validation = compareParams actual expectedAPIParams
                   in if \<not> matched validation
                      then (Inl (Error (mismatch_message validation)), s)
                      else (Inr (), stopInterception s))))"

section \<open>Predicates for stating the properties\<close>

text \<open>
  The characters a serialized query is made of, and the characters the URL parser keeps
  as they are and does not read as the start of the fragment.
\<close>

definition query_char :: "char \<Rightarrow> bool" where
  "query_char c = (url_safe c \<or> c = CHR ''+'' \<or> c = CHR ''%'')"

definition url_char :: "char \<Rightarrow> bool" where
  "url_char c = (c \<noteq> CHR ''#'' \<and> \<not> c0_or_space c \<and> \<not> tab_or_newline c)"

text \<open>One pair as \<open>URLSearchParams.toString\<close> writes it.\<close>

definition encode_pair :: "string \<times> string \<Rightarrow> string" where
  "encode_pair p = urlencode (fst p) @ ''='' @ urlencode (snd p)"

text \<open>
  A parameter set with valid values: its keys are distinct, each is a recognized field,
  an integer field holds a safe integer and a string field a non-empty string.
\<close>

fun valid_entry :: "string \<times> jsval \<Rightarrow> bool" where
  "valid_entry (k, Number (Integer i)) = (k \<in> set integer_fields \<and> safe_integer i)"
| "valid_entry (k, Str s) = (k \<in> set string_fields \<and> s \<noteq> [])"
| "valid_entry (k, Number NaN) = False"
| "valid_entry (k, Undefined) = False"

definition valid_params :: "SearchAPIParams \<Rightarrow> bool" where
  "valid_params p = (distinct (map fst p) \<and> list_all valid_entry p)"

section \<open>Objects: assignment and spread\<close>

lemma show_nat_small: "n < 10 \<Longrightarrow> show_nat n = [digit_char n]"
  by (simp add: show_nat.simps)

lemma map_of_assign: "map_of (assign k v obj) = (map_of obj)(k \<mapsto> v)"
  by (simp add: assign_def update_conv')

lemma distinct_assign: "distinct (map fst obj) \<Longrightarrow> distinct (map fst (assign k v obj))"
  by (simp add: assign_def distinct_update)

lemma distinct_spread: "distinct (map fst a) \<Longrightarrow> distinct (map fst (spread a b))"
  unfolding spread_def
  by (induction b arbitrary: a) (auto simp: distinct_assign)

lemma map_of_spread:
  "distinct (map fst b) \<Longrightarrow> map_of (spread a b) = map_of a ++ map_of b"
  unfolding spread_def
proof (induction b arbitrary: a)
  case Nil
  then show ?case by simp
next
  case (Cons p b)
  obtain k v where p: "p = (k, v)" by (cases p)
  from Cons.prems p have fresh: "k \<notin> dom (map_of b)" and d: "distinct (map fst b)"
    by (auto simp: dom_map_of_conv_image_fst)
  have "fold (\<lambda>(k, v). assign k v) (p # b) a = fold (\<lambda>(k, v). assign k v) b (assign k v a)"
    by (simp add: p)
  also have "map_of \<dots> = map_of (assign k v a) ++ map_of b"
    by (rule Cons.IH [OF d])
  also have "\<dots> = map_of a ++ map_of (p # b)"
    using fresh by (auto simp: p map_of_assign map_add_def fun_eq_iff split: option.splits)
  finally show ?case .
qed

lemma fold_append_entries:
  "fold (\<lambda>(key, v) acc. if v \<noteq> Undefined then acc @ [(key, to_string v)] else acc) xs acc0
   = acc0 @ map (\<lambda>(key, v). (key, to_string v)) (filter (\<lambda>(key, v). v \<noteq> Undefined) xs)"
  by (induction xs arbitrary: acc0) auto

lemma search_params_eq:
  "search_params params =
     map (\<lambda>(key, v). (key, to_string v))
       (filter (\<lambda>(key, v). v \<noteq> Undefined) (spread DEFAULT_API_PARAMS params))"
  by (simp add: search_params_def fold_append_entries)

lemma distinct_defaults: "distinct (map fst DEFAULT_API_PARAMS)"
  by (simp add: DEFAULT_API_PARAMS_def)

section \<open>Printing and parsing integers\<close>

lemma of_char_digit_char: "d < 10 \<Longrightarrow> (of_char (digit_char d) :: nat) = 48 + d"
  by (simp add: digit_char_def of_char_of)

lemma is_digit_digit_char: "d < 10 \<Longrightarrow> is_digit (digit_char d)"
  by (simp add: is_digit_def of_char_digit_char)

lemma digit_value_digit_char: "d < 10 \<Longrightarrow> digit_value (digit_char d) = d"
  by (simp add: digit_value_def of_char_digit_char)

lemma show_nat_digits: "c \<in> set (show_nat n) \<Longrightarrow> is_digit c"
proof (induction n arbitrary: c rule: show_nat.induct)
  case (1 n)
  show ?case
  proof (cases "n < 10")
    case True
    with "1.prems" show ?thesis
      by (simp add: show_nat_small is_digit_digit_char)
  next
    case False
    then have "show_nat n = show_nat (n div 10) @ [digit_char (n mod 10)]"
      by (subst show_nat.simps) simp
    with "1.prems" "1.IH" [OF False] show ?thesis
      by (auto simp: is_digit_digit_char)
  qed
qed

lemma show_nat_nonempty: "show_nat n \<noteq> []"
  by (subst show_nat.simps) simp

lemma digits_value_snoc: "digits_value (ds @ [c]) = 10 * digits_value ds + digit_value c"
  by (simp add: digits_value_def)

lemma digits_value_show_nat: "digits_value (show_nat n) = n"
proof (induction n rule: show_nat.induct)
  case (1 n)
  show ?case
  proof (cases "n < 10")
    case True
    then show ?thesis
      by (simp add: show_nat_small digits_value_def digit_value_digit_char)
  next
    case False
    then have "show_nat n = show_nat (n div 10) @ [digit_char (n mod 10)]"
      by (subst show_nat.simps) simp
    with "1.IH" [OF False] show ?thesis
      by (simp add: digits_value_snoc digit_value_digit_char)
  qed
qed

lemma not_white_space_start:
  assumes "s \<noteq> []" and "48 \<le> (of_char (hd s) :: nat) \<or> hd s = CHR ''-'' \<or> hd s = CHR ''+''"
    and "(of_char (hd s) :: nat) < 128"
  shows "find (\<lambda>w. starts_with w s) white_space = None"
proof -
  obtain c cs where s: "s = c # cs"
    using assms(1) by (cases s) auto
  have "\<not> starts_with w s" if "w \<in> set white_space" for w
  proof
    assume "starts_with w s"
    then have "hd w = c"
      by (cases w) (auto simp: starts_with_def s)
    moreover from that have "(of_char (hd w) :: nat) \<in> {9, 10, 11, 12, 13, 32, 194, 225, 226, 227, 239}"
      by (auto simp: white_space_def)
    ultimately show False
      using assms(2,3) by (auto simp: s)
  qed
  then show ?thesis
    by (simp add: find_None_iff)
qed

lemma trim_start_no_white_space:
  "find (\<lambda>w. starts_with w s) white_space = None \<Longrightarrow> trim_start s = s"
  by (subst trim_start.simps) simp

lemma is_digit_of_char: "is_digit c \<Longrightarrow> 48 \<le> (of_char c :: nat) \<and> (of_char c :: nat) < 128"
  by (simp add: is_digit_def)

lemma trim_start_show_nat: "trim_start (show_nat n) = show_nat n"
proof -
  have "is_digit (hd (show_nat n))"
    by (rule show_nat_digits [of _ n]) (simp add: show_nat_nonempty)
  then show ?thesis
    using show_nat_nonempty [of n]
    by (intro trim_start_no_white_space not_white_space_start) (auto dest: is_digit_of_char)
qed

lemma parseInt_show_nat: "parseInt (show_nat n) = Integer (int n)"
proof -
  have d: "is_digit (hd (show_nat n))"
    by (rule show_nat_digits [of _ n]) (simp add: show_nat_nonempty)
  then have "hd (show_nat n) \<noteq> CHR ''-''" "hd (show_nat n) \<noteq> CHR ''+''"
    by (auto simp: is_digit_def)
  moreover have tw: "takeWhile is_digit (show_nat n) = show_nat n"
    by (simp add: show_nat_digits)
  ultimately show ?thesis
    using show_nat_nonempty [of n]
    by (simp add: parseInt_def Let_def trim_start_show_nat tw digits_value_show_nat)
qed

lemma parseInt_minus_show_nat: "parseInt (CHR ''-'' # show_nat n) = Integer (- int n)"
proof -
  have ts: "trim_start (CHR ''-'' # show_nat n) = CHR ''-'' # show_nat n"
    by (intro trim_start_no_white_space not_white_space_start) simp_all
  have tw: "takeWhile is_digit (show_nat n) = show_nat n"
    by (simp add: show_nat_digits)
  show ?thesis
    using show_nat_nonempty [of n]
    by (simp add: parseInt_def Let_def ts tw digits_value_show_nat)
qed

lemma parseInt_number_to_string: "parseInt (number_to_string (Integer i)) = Integer i"
  by (simp add: parseInt_show_nat parseInt_minus_show_nat)

lemma number_to_string_nonempty: "number_to_string n \<noteq> []"
  by (cases n) (simp_all add: show_nat_nonempty)

section \<open>The form-urlencoded codec\<close>

lemma of_char_less_256: "(of_char c :: nat) < 256"
proof -
  have "(of_char c :: nat) = of_char (char_of (of_char c :: nat))"
    by (simp only: char_of_char)
  also have "\<dots> = (of_char c :: nat) mod 256"
    by (rule of_char_of)
  finally have e: "(of_char c :: nat) = of_char c mod 256" .
  show ?thesis
    by (subst e) simp
qed

lemma of_char_nibbles: "(of_char c :: nat) div 16 < 16" "(of_char c :: nat) mod 16 < 16"
proof -
  show "(of_char c :: nat) div 16 < 16"
    using of_char_less_256 [of c] by arith
  show "(of_char c :: nat) mod 16 < 16"
    by simp
qed

lemma hex_digit_safe: "d < 16 \<Longrightarrow> url_safe (hex_digit d)"
  by (auto simp: hex_digit_def url_safe_def of_char_of Let_def)

lemma hex_value_hex_digit: "d < 16 \<Longrightarrow> hex_value (hex_digit d) = Some d"
  by (auto simp: hex_digit_def hex_value_def of_char_of Let_def)

lemma url_safe_not_special:
  "url_safe c \<Longrightarrow> c \<noteq> CHR ''+'' \<and> c \<noteq> CHR ''%'' \<and> c \<noteq> CHR ''&'' \<and> c \<noteq> CHR ''=''
     \<and> c \<noteq> CHR ''#'' \<and> c \<noteq> CHR ''?'' \<and> \<not> c0_or_space c \<and> \<not> tab_or_newline c"
  by (auto simp: url_safe_def c0_or_space_def tab_or_newline_def Let_def)

lemma query_char_not_special:
  "query_char c \<Longrightarrow> c \<noteq> CHR ''&'' \<and> c \<noteq> CHR ''=''
     \<and> c \<noteq> CHR ''#'' \<and> c \<noteq> CHR ''?'' \<and> \<not> c0_or_space c \<and> \<not> tab_or_newline c"
  unfolding query_char_def
  by (elim disjE) (auto dest: url_safe_not_special simp: c0_or_space_def tab_or_newline_def)

lemma percent_encode_byte_chars: "x \<in> set (percent_encode_byte c) \<Longrightarrow> query_char x"
  by (auto simp: percent_encode_byte_def query_char_def hex_digit_safe of_char_nibbles split: if_splits)

lemma urlencode_chars: "x \<in> set (urlencode s) \<Longrightarrow> query_char x"
  by (auto simp: urlencode_def dest: percent_encode_byte_chars)

lemma percent_decode_plain: "c \<noteq> CHR ''%'' \<Longrightarrow> percent_decode (c # cs) = c # percent_decode cs"
  by (cases "(c # cs)" rule: percent_decode.cases) auto

lemma percent_decode_hex:
  "hex_value h1 = Some a \<Longrightarrow> hex_value h2 = Some b \<Longrightarrow>
   percent_decode (CHR ''%'' # h1 # h2 # cs) = char_of (16 * a + b) # percent_decode cs"
  by simp

lemma char_of_div_mod: "char_of (16 * ((of_char c :: nat) div 16) + (of_char c :: nat) mod 16) = c"
  by (simp add: char_of_char)

lemma decode_encode_byte:
  "percent_decode (plus_to_space (percent_encode_byte c @ rest)) = c # percent_decode (plus_to_space rest)"
proof (cases "url_safe c")
  case True
  then have "c \<noteq> CHR ''+''" "c \<noteq> CHR ''%''"
    using url_safe_not_special by auto
  with True show ?thesis
    by (simp add: percent_encode_byte_def plus_to_space_def percent_decode_plain)
next
  case False
  show ?thesis
  proof (cases "c = CHR '' ''")
    case True
    with False show ?thesis
      by (simp add: percent_encode_byte_def plus_to_space_def percent_decode_plain)
  next
    case ns: False
    let ?n = "of_char c :: nat"
    have lt: "?n div 16 < 16" "?n mod 16 < 16"
      by (rule of_char_nibbles)+
    have p: "hex_digit (?n div 16) \<noteq> CHR ''+''" "hex_digit (?n mod 16) \<noteq> CHR ''+''"
      using lt url_safe_not_special [OF hex_digit_safe] by auto
    have "percent_decode (CHR ''%'' # hex_digit (?n div 16) # hex_digit (?n mod 16) # plus_to_space rest)
        = char_of (16 * (?n div 16) + ?n mod 16) # percent_decode (plus_to_space rest)"
      by (rule percent_decode_hex) (simp_all add: hex_value_hex_digit lt)
    with False ns p show ?thesis
      by (simp add: percent_encode_byte_def plus_to_space_def char_of_div_mod)
  qed
qed

lemma urldecode_urlencode: "urldecode (urlencode s) = s"
proof -
  have "percent_decode (plus_to_space (urlencode s)) = s"
  proof (induction s)
    case Nil
    then show ?case by (simp add: urlencode_def plus_to_space_def)
  next
    case (Cons c s)
    have "urlencode (c # s) = percent_encode_byte c @ urlencode s"
      by (simp add: urlencode_def)
    with Cons show ?case
      by (simp add: decode_encode_byte)
  qed
  then show ?thesis
    by (simp add: urldecode_def)
qed

lemma split_on_no_sep: "c \<notin> set xs \<Longrightarrow> split_on c xs = [xs]"
  by (induction xs) auto

lemma split_on_append:
  "c \<notin> set xs \<Longrightarrow> split_on c (xs @ c # ys) = xs # split_on c ys"
  by (induction xs) auto

lemma split_on_join:
  "xs \<noteq> [] \<Longrightarrow> \<forall>x\<in>set xs. c \<notin> set x \<Longrightarrow> split_on c (join [c] xs) = xs"
proof (induction "[c]" xs rule: join.induct)
  case 1
  then show ?case by simp
next
  case (2 x)
  then show ?case by (simp add: split_on_no_sep)
next
  case (3 x y ys)
  then show ?case
    by (simp add: split_on_append)
qed

lemma encode_pair_chars: "x \<in> set (encode_pair p) \<Longrightarrow> query_char x \<or> x = CHR ''=''"
  by (auto simp: encode_pair_def dest: urlencode_chars)

lemma parse_pair_encode_pair: "parse_pair (encode_pair p) = p"
proof -
  have n: "\<forall>x\<in>set (urlencode (fst p)). x \<noteq> CHR ''=''"
    using urlencode_chars query_char_not_special by blast
  then have "takeWhile (\<lambda>c. c \<noteq> CHR ''='') (urlencode (fst p) @ CHR ''='' # urlencode (snd p))
      = urlencode (fst p)"
    by (simp add: takeWhile_tail)
  then show ?thesis
    by (simp add: parse_pair_def encode_pair_def Let_def urldecode_urlencode)
qed

lemma toString_eq: "URLSearchParams_toString ps = join ''&'' (map encode_pair ps)"
  by (simp add: URLSearchParams_toString_def encode_pair_def [abs_def] case_prod_unfold)

lemma parse_urlencoded_toString: "parse_urlencoded (URLSearchParams_toString ps) = ps"
proof (cases "ps = []")
  case True
  then show ?thesis
    by (simp add: parse_urlencoded_def URLSearchParams_toString_def)
next
  case False
  have amp: "\<forall>x\<in>set (map encode_pair ps). CHR ''&'' \<notin> set x"
    using encode_pair_chars query_char_not_special by fastforce
  have ne: "\<forall>x\<in>set (map encode_pair ps). x \<noteq> []"
    by (simp add: encode_pair_def)
  from False amp have "split_on (CHR ''&'') (join ''&'' (map encode_pair ps)) = map encode_pair ps"
    by (intro split_on_join) simp_all
  moreover from ne have "filter (\<lambda>piece. piece \<noteq> []) (map encode_pair ps) = map encode_pair ps"
    by (simp add: filter_id_conv)
  ultimately show ?thesis
    by (simp add: parse_urlencoded_def toString_eq parse_pair_encode_pair [abs_def] comp_def)
qed

lemma join_chars: "x \<in> set (join sep xs) \<Longrightarrow> x \<in> set sep \<or> (\<exists>y\<in>set xs. x \<in> set y)"
  by (induction sep xs rule: join.induct) auto

lemma toString_chars:
  "x \<in> set (URLSearchParams_toString ps) \<Longrightarrow> query_char x \<or> x = CHR ''='' \<or> x = CHR ''&''"
  unfolding toString_eq
  by (drule join_chars) (auto dest: encode_pair_chars)

section \<open>The query of a built URL\<close>

lemma rev_dropWhile_rev_id:
  "xs \<noteq> [] \<Longrightarrow> \<not> P (last xs) \<Longrightarrow> rev (dropWhile P (rev xs)) = xs"
  by (cases xs rule: rev_cases) auto

lemma url_input_id:
  assumes "\<forall>c\<in>set s. url_char c"
  shows "url_input s = s"
proof (cases "s = []")
  case True
  then show ?thesis by (simp add: url_input_def)
next
  case False
  then have h: "\<not> c0_or_space (hd s)" and l: "\<not> c0_or_space (last s)"
    using assms by (auto simp: url_char_def)
  from False h have d: "dropWhile c0_or_space s = s"
    by (cases s) auto
  have f: "filter (\<lambda>c. \<not> tab_or_newline c) s = s"
    using assms by (simp add: filter_id_conv url_char_def)
  have r: "rev (dropWhile c0_or_space (rev s)) = s"
    using False l by (rule rev_dropWhile_rev_id)
  show ?thesis
    by (simp add: url_input_def d r f)
qed

lemma url_query_of_built:
  assumes p: "\<forall>c\<in>set pre. url_char c \<and> c \<noteq> CHR ''?''" and q: "\<forall>c\<in>set q. url_char c"
  shows "url_query (pre @ ''?'' @ q) = q"
proof -
  have u: "\<forall>c\<in>set (pre @ ''?'' @ q). url_char c"
    using p q by (auto simp: url_char_def c0_or_space_def tab_or_newline_def)
  then have t: "takeWhile (\<lambda>c. c \<noteq> CHR ''#'') (pre @ ''?'' @ q) = pre @ ''?'' @ q"
    by (simp add: takeWhile_eq_all_conv url_char_def)
  have d: "dropWhile (\<lambda>c. c \<noteq> CHR ''?'') (pre @ ''?'' @ q) = ''?'' @ q"
    using p by (simp add: dropWhile_append2)
  show ?thesis
    by (simp only: url_query_def url_input_id [OF u] Let_def t d) simp
qed

lemma SEARCH_API_URL_chars: "\<forall>c\<in>set SEARCH_API_URL. url_char c \<and> c \<noteq> CHR ''?''"
  by (simp add: SEARCH_API_URL_def url_char_def c0_or_space_def tab_or_newline_def)

lemma toString_url_chars: "\<forall>c\<in>set (URLSearchParams_toString ps). url_char c"
proof
  fix c assume "c \<in> set (URLSearchParams_toString ps)"
  then have "query_char c \<or> c = CHR ''='' \<or> c = CHR ''&''"
    by (rule toString_chars)
  then show "url_char c"
    by (auto simp: url_char_def c0_or_space_def tab_or_newline_def dest: query_char_not_special)
qed

lemma url_query_buildSearchAPIUrl:
  "url_query (buildSearchAPIUrl params) = URLSearchParams_toString (search_params params)"
  unfolding buildSearchAPIUrl_def
  by (rule url_query_of_built [OF SEARCH_API_URL_chars toString_url_chars])

lemma assign_fresh: "k \<notin> fst ` set obj \<Longrightarrow> assign k v obj = obj @ [(k, v)]"
  unfolding assign_def by (induction obj) auto

lemma fold_record_assign:
  "distinct (map fst (acc @ ps)) \<Longrightarrow> ''__proto__'' \<notin> fst ` set ps \<Longrightarrow>
   fold (\<lambda>(key, v) params. record_assign key v params) ps acc = acc @ ps"
proof (induction ps arbitrary: acc)
  case Nil
  then show ?case by simp
next
  case (Cons p ps)
  obtain k v where p: "p = (k, v)" by (cases p)
  from Cons.prems p have k: "k \<noteq> ''__proto__''" "k \<notin> fst ` set acc"
    by auto
  then have "record_assign k v acc = acc @ [(k, v)]"
    by (simp add: record_assign_def assign_fresh)
  moreover have "fold (\<lambda>(key, v) params. record_assign key v params) ps (acc @ [(k, v)])
      = (acc @ [(k, v)]) @ ps"
    using Cons.prems p by (intro Cons.IH) auto
  ultimately show ?case
    by (simp add: p)
qed

lemma parseQueryParams_buildSearchAPIUrl:
  assumes "distinct (map fst (search_params params))"
    and "''__proto__'' \<notin> fst ` set (search_params params)"
  shows "parseQueryParams (buildSearchAPIUrl params) = search_params params"
  using fold_record_assign [of "[]" "search_params params"] assms
  by (simp add: parseQueryParams_def url_query_buildSearchAPIUrl parse_urlencoded_toString)

section \<open>The translator on the configured labels\<close>

lemmas translator_defs =
  mapToAPIParams_def map_category_def map_location_def getCategoryMapping_def
  getLocationMapping_def lookup_def CATEGORY_MAPPINGS_def LOCATION_MAPPINGS_def
  Object_prototype_keys_def truthy_def assign_def

text \<open>
  C6. The claim gives the meta code of "Escorts and Massages" as \<open>escorts_massages\<close>. The
  registry configures \<open>cat_id = 88\<close> and \<open>meta_code = adult_services\<close> for that label, so
  the translation of category "Escorts and Massages" with location "London" succeeds
  with \<open>cat_id 88\<close>, \<open>meta_code adult_services\<close> and \<open>geo_id 7\<close>, whatever the keyword.
\<close>

theorem translate_known_labels:
  "mapToAPIParams
     \<lparr>category = Some ''Escorts and Massages'', location = Some ''London'', keyword = kw\<rparr>
   = Inr [(''cat_id'', Number (Integer 88)), (''meta_code'', Str ''adult_services''),
          (''geo_id'', Number (Integer 7))]"
  by (simp add: translator_defs)

text \<open>
  The claim as stated fails on these labels: the translation does not carry the meta code
  \<open>escorts_massages\<close>.
\<close>

theorem translate_known_labels_not_escorts_massages:
  "\<not> (case mapToAPIParams
            \<lparr>category = Some ''Escorts and Massages'', location = Some ''London'', keyword = None\<rparr>
       of Inl e \<Rightarrow> False
        | Inr r \<Rightarrow> get r ''meta_code'' = Str ''escorts_massages'' \<and>
                  get r ''geo_id'' = Number (Integer 7))"
  by (simp add: translator_defs get_def)

text \<open>
  C7. The empty location label is an entry of the location registry with \<open>geo_id 0\<close>, and
  a request with only the empty location translates to the parameter set holding
  \<open>geo_id 0\<close> alone: it is no lookup failure. The keyword plays no part.
\<close>

theorem translate_empty_location:
  "getLocationMapping [] = Own \<lparr>label = [], geo_id = Integer 0\<rparr> \<and>
   mapToAPIParams \<lparr>category = None, location = Some [], keyword = kw\<rparr>
     = Inr [(''geo_id'', Number (Integer 0))]"
  by (simp add: translator_defs)

section \<open>Defaults of the request builder\<close>

text \<open>
  The spread of an object over another, field by field: the keys of the first in their
  order, each with the value of the second when the second has the key, then the keys
  that only the second has.
\<close>

lemma override_cong:
  "k \<notin> fst ` set a \<Longrightarrow>
   map (\<lambda>(k', d). (k', case map_of ((k, v) # b) k' of None \<Rightarrow> d | Some x \<Rightarrow> x)) a
   = map (\<lambda>(k', d). (k', case map_of b k' of None \<Rightarrow> d | Some x \<Rightarrow> x)) a"
  by (induction a) auto

lemma override_assign:
  "distinct (map fst a) \<Longrightarrow> map_of b k = None \<Longrightarrow> k \<in> fst ` set a \<Longrightarrow>
   map (\<lambda>(k', d). (k', case map_of b k' of None \<Rightarrow> d | Some x \<Rightarrow> x)) (assign k v a)
   = map (\<lambda>(k', d). (k', case map_of ((k, v) # b) k' of None \<Rightarrow> d | Some x \<Rightarrow> x)) a"
proof (induction a)
  case Nil
  then show ?case by simp
next
  case (Cons p a)
  obtain k0 d0 where p: "p = (k0, d0)" by (cases p)
  show ?case
  proof (cases "k0 = k")
    case True
    with Cons.prems p have "k \<notin> fst ` set a"
      by auto
    then have "map (\<lambda>(k', d). (k', case map_of b k' of None \<Rightarrow> d | Some x \<Rightarrow> x)) a
        = map (\<lambda>(k', d). (k', case map_of ((k, v) # b) k' of None \<Rightarrow> d | Some x \<Rightarrow> x)) a"
      by (rule override_cong [symmetric])
    then show ?thesis
      using True p Cons.prems(2) by (simp add: assign_def)
  next
    case False
    with Cons p show ?thesis
      by (auto simp: assign_def)
  qed
qed

lemma spread_fieldwise:
  "distinct (map fst a) \<Longrightarrow> distinct (map fst b) \<Longrightarrow>
   spread a b =
     map (\<lambda>(k, d). (k, case map_of b k of None \<Rightarrow> d | Some x \<Rightarrow> x)) a
     @ filter (\<lambda>(k, v). map_of a k = None) b"
proof (induction b arbitrary: a)
  case Nil
  then show ?case
    by (simp add: spread_def case_prod_unfold)
next
  case (Cons p b)
  obtain k v where p: "p = (k, v)" by (cases p)
  from Cons.prems p have fresh: "map_of b k = None" and db: "distinct (map fst b)"
    by (auto simp: map_of_eq_None_iff)
  have da: "distinct (map fst (assign k v a))"
    by (rule distinct_assign [OF Cons.prems(1)])
  have step: "spread a (p # b) = spread (assign k v a) b"
    by (simp add: spread_def p)
  have nk: "k' \<noteq> k" if "(k', v') \<in> set b" for k' v'
  proof
    assume "k' = k"
    with that have "k \<in> fst ` set b"
      by force
    with fresh show False
      by (simp add: map_of_eq_None_iff)
  qed
  have flt: "filter (\<lambda>(k', v'). map_of (assign k v a) k' = None) b
      = filter (\<lambda>(k', v'). map_of a k' = None) b"
    by (rule filter_cong [OF refl]) (auto simp: map_of_assign dest: nk)
  show ?case
  proof (cases "k \<in> fst ` set a")
    case True
    then have "map_of a k \<noteq> None"
      by (simp add: map_of_eq_None_iff)
    with True show ?thesis
      unfolding step Cons.IH [OF da db] flt
      by (simp add: p override_assign [OF Cons.prems(1) fresh True])
  next
    case False
    then have "map_of a k = None"
      by (simp add: map_of_eq_None_iff)
    have oc: "map (\<lambda>(k', d). (k', case map_of ((k, v) # b) k' of None \<Rightarrow> d | Some x \<Rightarrow> x)) a
        = map (\<lambda>(k', d). (k', case map_of b k' of None \<Rightarrow> d | Some x \<Rightarrow> x)) a"
      by (rule override_cong [OF False])
    have e: "spread a (p # b) =
        map (\<lambda>(k', d). (k', case map_of b k' of None \<Rightarrow> d | Some x \<Rightarrow> x)) (a @ [(k, v)])
        @ filter (\<lambda>(k', v'). map_of a k' = None) b"
    proof -
      have "spread a (p # b) = spread (assign k v a) b"
        by (rule step)
      also have "\<dots> =
          map (\<lambda>(k', d). (k', case map_of b k' of None \<Rightarrow> d | Some x \<Rightarrow> x)) (assign k v a)
          @ filter (\<lambda>(k', v'). map_of (assign k v a) k' = None) b"
        by (rule Cons.IH [OF da db])
      also have "\<dots> =
          map (\<lambda>(k', d). (k', case map_of b k' of None \<Rightarrow> d | Some x \<Rightarrow> x)) (a @ [(k, v)])
          @ filter (\<lambda>(k', v'). map_of a k' = None) b"
        by (simp only: flt) (simp only: assign_fresh [OF False])
      finally show ?thesis .
    qed
    from \<open>map_of a k = None\<close> fresh show ?thesis
      unfolding e unfolding p oc
      by simp
  qed
qed

text \<open>
  C9. The URL built from the empty parameter set has the query
  \<open>summary=1&country=GB&country_id=GB\<close> and nothing else. For every object \<open>params\<close> (its
  keys distinct) the built URL is the endpoint, \<open>?\<close>, and the serialized pairs of the
  field-by-field merge: the three default keys in their order, each once, carrying the
  caller's value where the caller has the key and the default otherwise, followed by the
  caller's other keys. A key whose merged value is \<open>undefined\<close> is not written, so a caller
  who sets a default key to \<open>undefined\<close> removes that one parameter and no other.
\<close>

theorem build_defaults_fieldwise:
  "buildSearchAPIUrl [] =
     ''https://search.vivastreet.co.uk/ajax/regions_tree.php?summary=1&country=GB&country_id=GB''
   \<and> (distinct (map fst params) \<longrightarrow>
        buildSearchAPIUrl params =
          SEARCH_API_URL @ ''?'' @
          URLSearchParams_toString
            (map (\<lambda>(k, v). (k, to_string v))
              (filter (\<lambda>(k, v). v \<noteq> Undefined)
                (map (\<lambda>(k, d). (k, case map_of params k of None \<Rightarrow> d | Some v \<Rightarrow> v))
                   DEFAULT_API_PARAMS
                 @ filter (\<lambda>(k, v). map_of DEFAULT_API_PARAMS k = None) params))))"
proof (intro conjI impI)
  show "buildSearchAPIUrl [] =
     ''https://search.vivastreet.co.uk/ajax/regions_tree.php?summary=1&country=GB&country_id=GB''"
    by code_simp
next
  assume d: "distinct (map fst params)"
  show "buildSearchAPIUrl params =
          SEARCH_API_URL @ ''?'' @
          URLSearchParams_toString
            (map (\<lambda>(k, v). (k, to_string v))
              (filter (\<lambda>(k, v). v \<noteq> Undefined)
                (map (\<lambda>(k, d). (k, case map_of params k of None \<Rightarrow> d | Some v \<Rightarrow> v))
                   DEFAULT_API_PARAMS
                 @ filter (\<lambda>(k, v). map_of DEFAULT_API_PARAMS k = None) params)))"
    unfolding buildSearchAPIUrl_def search_params_eq
    by (simp only: spread_fieldwise [OF distinct_defaults d])
qed

theorem build_defaults_fieldwise_witness:
  "buildSearchAPIUrl [(''country'', Str ''FR'')] =
     ''https://search.vivastreet.co.uk/ajax/regions_tree.php?summary=1&country=FR&country_id=GB''
   \<and> buildSearchAPIUrl
        [(''geo_id'', Number (Integer 7)), (''country_id'', Str ''IE''), (''summary'', Undefined)] =
     ''https://search.vivastreet.co.uk/ajax/regions_tree.php?country=GB&country_id=IE&geo_id=7''"
proof -
  have d1: "distinct (map fst [(''country'', Str ''FR'')])"
    by simp
  have d2: "distinct (map fst
      [(''geo_id'', Number (Integer 7)), (''country_id'', Str ''IE''), (''summary'', Undefined)])"
    by simp
  note u1 = build_defaults_fieldwise [of "[(''country'', Str ''FR'')]", THEN conjunct2, THEN mp, OF d1]
  note u2 = build_defaults_fieldwise
    [of "[(''geo_id'', Number (Integer 7)), (''country_id'', Str ''IE''), (''summary'', Undefined)]",
      THEN conjunct2, THEN mp, OF d2]
  have r1: "SEARCH_API_URL @ ''?'' @
          URLSearchParams_toString
            (map (\<lambda>(k, v). (k, to_string v))
              (filter (\<lambda>(k, v). v \<noteq> Undefined)
                (map (\<lambda>(k, d). (k, case map_of [(''country'', Str ''FR'')] k of None \<Rightarrow> d | Some v \<Rightarrow> v))
                   DEFAULT_API_PARAMS
                 @ filter (\<lambda>(k, v). map_of DEFAULT_API_PARAMS k = None) [(''country'', Str ''FR'')])))
      = ''https://search.vivastreet.co.uk/ajax/regions_tree.php?summary=1&country=FR&country_id=GB''"
    by code_simp
  have r2: "SEARCH_API_URL @ ''?'' @
          URLSearchParams_toString
            (map (\<lambda>(k, v). (k, to_string v))
              (filter (\<lambda>(k, v). v \<noteq> Undefined)
                (map (\<lambda>(k, d). (k, case map_of
                      [(''geo_id'', Number (Integer 7)), (''country_id'', Str ''IE''), (''summary'', Undefined)] k
                    of None \<Rightarrow> d | Some v \<Rightarrow> v))
                   DEFAULT_API_PARAMS
                 @ filter (\<lambda>(k, v). map_of DEFAULT_API_PARAMS k = None)
                     [(''geo_id'', Number (Integer 7)), (''country_id'', Str ''IE''), (''summary'', Undefined)])))
      = ''https://search.vivastreet.co.uk/ajax/regions_tree.php?country=GB&country_id=IE&geo_id=7''"
    by code_simp
  from u1 r1 u2 r2 show ?thesis
    by (simp only:)
qed

section \<open>Comparison of parameter sets\<close>

lemma fold_compare_key:
  "fold (compare_key actual expected) ks (m, ds) =
     (m \<and> \<not> list_ex (mismatch actual expected) ks,
      ds @ map (\<lambda>k. difference k (get expected k) (get actual k))
             (filter (mismatch actual expected) ks))"
  by (induction ks arbitrary: m ds) (auto simp: mismatch_def Let_def)

lemma matched_compareParams:
  "matched (compareParams actual expected) = (\<not> list_ex (mismatch actual expected) paramsToCompare)"
  by (simp add: compareParams_def fold_compare_key)

lemma differences_compareParams:
  "differences (compareParams actual expected) =
     (if filter (mismatch actual expected) paramsToCompare = [] then None
      else Some (map (\<lambda>k. difference k (get expected k) (get actual k))
                   (filter (mismatch actual expected) paramsToCompare)))"
  by (simp add: compareParams_def fold_compare_key)

lemma compareParams_cong:
  assumes "\<forall>k\<in>set paramsToCompare. get actual' k = get actual k \<and> get expected' k = get expected k"
  shows "matched (compareParams actual' expected') = matched (compareParams actual expected)"
    and "differences (compareParams actual' expected') = differences (compareParams actual expected)"
proof -
  have m: "\<forall>k\<in>set paramsToCompare. mismatch actual' expected' k = mismatch actual expected k"
    using assms by (simp add: mismatch_def)
  then have f: "filter (mismatch actual' expected') paramsToCompare
      = filter (mismatch actual expected) paramsToCompare"
    by (auto intro: filter_cong)
  from m show "matched (compareParams actual' expected') = matched (compareParams actual expected)"
    by (simp add: matched_compareParams list_ex_iff)
  from f assms show "differences (compareParams actual' expected') = differences (compareParams actual expected)"
    by (simp add: differences_compareParams)
qed

lemma get_assign: "get (assign k v obj) k' = (if k' = k then v else get obj k')"
  by (simp add: get_def assign_def update_conv')

text \<open>
  C2. The comparison reads the three keys \<open>cat_id\<close>, \<open>geo_id\<close> and \<open>meta_code\<close> and nothing
  else. It reports matched exactly when each of the three that the expected set defines
  is strictly equal (\<open>===\<close>) in the actual set. A key the expected set leaves undefined is
  no constraint: with no expected \<open>geo_id\<close>, any actual \<open>geo_id\<close> gives the same verdict.
  Two pairs of sets that agree on the three keys get the same verdict, so \<open>summary\<close>,
  \<open>country\<close> and \<open>country_id\<close> are never compared.
\<close>

theorem compare_restricted_fields:
  "(matched (compareParams actual expected) \<longleftrightarrow>
      (\<forall>k\<in>{''cat_id'', ''geo_id'', ''meta_code''}.
          get expected k \<noteq> Undefined \<longrightarrow> strict_eq (get actual k) (get expected k)))
   \<and> (get expected ''geo_id'' = Undefined \<longrightarrow>
        matched (compareParams (assign ''geo_id'' g actual) expected)
          = matched (compareParams actual expected))
   \<and> ((\<forall>k\<in>{''cat_id'', ''geo_id'', ''meta_code''}.
          get actual' k = get actual k \<and> get expected' k = get expected k) \<longrightarrow>
        matched (compareParams actual' expected') = matched (compareParams actual expected))"
proof (intro conjI impI)
  show "matched (compareParams actual expected) \<longleftrightarrow>
      (\<forall>k\<in>{''cat_id'', ''geo_id'', ''meta_code''}.
          get expected k \<noteq> Undefined \<longrightarrow> strict_eq (get actual k) (get expected k))"
    by (auto simp add: matched_compareParams paramsToCompare_def mismatch_def)
next
  assume "get expected ''geo_id'' = Undefined"
  then show "matched (compareParams (assign ''geo_id'' g actual) expected)
          = matched (compareParams actual expected)"
    by (auto simp add: matched_compareParams paramsToCompare_def mismatch_def get_assign)
next
  assume "\<forall>k\<in>{''cat_id'', ''geo_id'', ''meta_code''}.
          get actual' k = get actual k \<and> get expected' k = get expected k"
  then show "matched (compareParams actual' expected') = matched (compareParams actual expected)"
    by (intro compareParams_cong) (simp add: paramsToCompare_def)
qed

theorem compare_restricted_fields_witness:
  "matched (compareParams
      [(''geo_id'', Number (Integer 7)), (''cat_id'', Number (Integer 88)),
       (''meta_code'', Str ''adult_services''), (''summary'', Number (Integer 1))]
      [(''cat_id'', Number (Integer 88)), (''meta_code'', Str ''adult_services'')])
   \<and> matched (compareParams
      (assign ''geo_id'' (Number (Integer 15))
        [(''geo_id'', Number (Integer 7)), (''cat_id'', Number (Integer 88)),
         (''meta_code'', Str ''adult_services''), (''summary'', Number (Integer 1))])
      [(''cat_id'', Number (Integer 88)), (''meta_code'', Str ''adult_services'')])
   \<and> matched (compareParams
      [(''geo_id'', Number (Integer 7)), (''cat_id'', Number (Integer 88)),
       (''meta_code'', Str ''adult_services''), (''summary'', Number (Integer 2)),
       (''country'', Str ''FR'')]
      [(''cat_id'', Number (Integer 88)), (''meta_code'', Str ''adult_services''),
       (''country_id'', Str ''IE'')])
   \<and> \<not> matched (compareParams
      [(''geo_id'', Number (Integer 7)), (''cat_id'', Number (Integer 88)),
       (''meta_code'', Str ''adult_services''), (''summary'', Number (Integer 1))]
      [(''cat_id'', Number (Integer 88)), (''meta_code'', Str ''adult_services''),
       (''geo_id'', Number (Integer 0))])"
proof -
  let ?actual = "[(''geo_id'', Number (Integer 7)), (''cat_id'', Number (Integer 88)),
       (''meta_code'', Str ''adult_services''), (''summary'', Number (Integer 1))]"
  let ?expected = "[(''cat_id'', Number (Integer 88)), (''meta_code'', Str ''adult_services'')]"
  note partial = compare_restricted_fields
    [where actual = ?actual and expected = ?expected and g = "Number (Integer 15)"
       and actual' = "[(''geo_id'', Number (Integer 7)), (''cat_id'', Number (Integer 88)),
          (''meta_code'', Str ''adult_services''), (''summary'', Number (Integer 2)),
          (''country'', Str ''FR'')]"
       and expected' = "[(''cat_id'', Number (Integer 88)), (''meta_code'', Str ''adult_services''),
          (''country_id'', Str ''IE'')]"]
  note full = compare_restricted_fields
    [where actual = ?actual
       and expected = "[(''cat_id'', Number (Integer 88)), (''meta_code'', Str ''adult_services''),
          (''geo_id'', Number (Integer 0))]"]
  have m: "matched (compareParams ?actual ?expected)"
    using partial [THEN conjunct1] by (simp add: get_def strict_eq_def)
  have g: "matched (compareParams (assign ''geo_id'' (Number (Integer 15)) ?actual) ?expected)"
    using partial [THEN conjunct2, THEN conjunct1] m by (simp add: get_def)
  have d: "matched (compareParams
      [(''geo_id'', Number (Integer 7)), (''cat_id'', Number (Integer 88)),
       (''meta_code'', Str ''adult_services''), (''summary'', Number (Integer 2)),
       (''country'', Str ''FR'')]
      [(''cat_id'', Number (Integer 88)), (''meta_code'', Str ''adult_services''),
       (''country_id'', Str ''IE'')])"
    using partial [THEN conjunct2, THEN conjunct2] m by (simp add: get_def)
  have n: "\<not> matched (compareParams ?actual
      [(''cat_id'', Number (Integer 88)), (''meta_code'', Str ''adult_services''),
       (''geo_id'', Number (Integer 0))])"
    using full [THEN conjunct1] by (simp add: get_def strict_eq_def)
  from m g d n show ?thesis
    by (intro conjI)
qed

subsection \<open>The differences and the mismatch error\<close>

lemma params_compareParams:
  "actualParams (compareParams actual expected) = actual"
  "expectedParams (compareParams actual expected) = expected"
  by (simp_all add: compareParams_def Let_def)

lemma join_nonempty: "xs \<noteq> [] \<Longrightarrow> hd xs \<noteq> [] \<Longrightarrow> join sep xs \<noteq> []"
  by (induction sep xs rule: join.induct) auto

lemma differences_spec:
  "differences (compareParams actual expected) =
     (if spec_differences actual expected = [] then None
      else Some (spec_differences actual expected))"
  unfolding differences_compareParams spec_differences_def paramsToCompare_def difference_def
  by (simp add: mismatch_def [abs_def])

lemma matched_spec:
  "matched (compareParams actual expected) = (spec_differences actual expected = [])"
  unfolding matched_compareParams spec_differences_def paramsToCompare_def
  by (simp add: mismatch_def [abs_def] list_ex_iff filter_empty_conv)

lemma spec_differences_hd: "spec_differences actual expected \<noteq> [] \<Longrightarrow> hd (spec_differences actual expected) \<noteq> []"
  by (simp add: spec_differences_def hd_map)

lemma example_url_params:
  "toSearchAPIParams
     (parseQueryParams ''https://search.vivastreet.co.uk/ajax/regions_tree.php?geo_id=7'')
   = [(''geo_id'', Number (Integer 7))]"
  by code_simp

lemma example_empty_location:
  "mapToAPIParams \<lparr>category = None, location = Some [], keyword = None\<rparr>
     = Inr [(''geo_id'', Number (Integer 0))]"
  by (simp add: translator_defs)

lemma example_mismatch:
  "\<not> matched (compareParams [(''geo_id'', Number (Integer 7))] [(''geo_id'', Number (Integer 0))])"
  by code_simp

text \<open>
  C8. The result of a comparison has differences exactly when it is not matched, and
  then they are the lines of \<open>spec_differences\<close>, a non-empty list in which each line
  names the key, the expected and the actual value. When the captured request does not
  match the translated expectation, \<open>validateInterceptedRequest\<close> throws an error whose
  message holds these lines, one per line, followed by the JSON of the actual and of the
  expected parameter set, and leaves the state as it was. The key is printed as the code
  names it, \<open>geo_id\<close> for the geoId of the specification.
\<close>

theorem differences_iff_mismatch:
  "(differences (compareParams actual expected) \<noteq> None \<longleftrightarrow> \<not> matched (compareParams actual expected))
   \<and> (\<not> matched (compareParams actual expected) \<longrightarrow>
        spec_differences actual expected \<noteq> [] \<and>
        differences (compareParams actual expected) = Some (spec_differences actual expected))
   \<and> (interceptedRequest s = Some url \<longrightarrow> mapToAPIParams request = Inr expected \<longrightarrow>
        actual = toSearchAPIParams (parseQueryParams url) \<longrightarrow>
        \<not> matched (compareParams actual expected) \<longrightarrow>
        validateInterceptedRequest request s =
          (Inl (Error
             (''Intercepted API request parameters do not match expected values:\<newline>'' @
              ''  - '' @ join ''\<newline>  - '' (spec_differences actual expected) @ ''\<newline>\<newline>'' @
              ''Actual params: '' @ JSON_stringify actual @ ''\<newline>'' @
              ''Expected params: '' @ JSON_stringify expected)), s))"
proof (intro conjI impI)
  show "differences (compareParams actual expected) \<noteq> None \<longleftrightarrow> \<not> matched (compareParams actual expected)"
    by (simp add: differences_spec matched_spec)
next
  assume "\<not> matched (compareParams actual expected)"
  then show "spec_differences actual expected \<noteq> []"
    by (simp add: matched_spec)
  then show "differences (compareParams actual expected) = Some (spec_differences actual expected)"
    by (simp add: differences_spec)
next
  assume s: "interceptedRequest s = Some url" and e: "mapToAPIParams request = Inr expected"
    and a: "actual = toSearchAPIParams (parseQueryParams url)"
    and m: "\<not> matched (compareParams actual expected)"
  from m have ne: "spec_differences actual expected \<noteq> []"
    by (simp add: matched_spec)
  then have j: "join ''\<newline>  - '' (spec_differences actual expected) \<noteq> []"
    by (intro join_nonempty spec_differences_hd)
  have "mismatch_message (compareParams actual expected) =
      ''Intercepted API request parameters do not match expected values:\<newline>'' @
      ''  - '' @ join ''\<newline>  - '' (spec_differences actual expected) @ ''\<newline>\<newline>'' @
      ''Actual params: '' @ JSON_stringify actual @ ''\<newline>'' @
      ''Expected params: '' @ JSON_stringify expected"
    using ne j by (simp add: mismatch_message_def differences_spec params_compareParams Let_def)
  with s e a m show "validateInterceptedRequest request s =
          (Inl (Error
             (''Intercepted API request parameters do not match expected values:\<newline>'' @
              ''  - '' @ join ''\<newline>  - '' (spec_differences actual expected) @ ''\<newline>\<newline>'' @
              ''Actual params: '' @ JSON_stringify actual @ ''\<newline>'' @
              ''Expected params: '' @ JSON_stringify expected)), s)"
    by (simp add: validateInterceptedRequest_def)
qed

theorem differences_iff_mismatch_witness:
  "differences (compareParams [(''geo_id'', Number (Integer 7))] [(''geo_id'', Number (Integer 15))])
     = Some [''geo_id: expected 15, got 7'']
   \<and> validateInterceptedRequest \<lparr>category = None, location = Some [], keyword = None\<rparr>
        \<lparr>routes = 1, interceptedRequest =
            Some ''https://search.vivastreet.co.uk/ajax/regions_tree.php?geo_id=7''\<rparr>
     = (Inl (Error
          (''Intercepted API request parameters do not match expected values:\<newline>'' @
           ''  - geo_id: expected 0, got 7\<newline>\<newline>'' @
           ''Actual params: {'' @ [CHR 0x22] @ ''geo_id'' @ [CHR 0x22] @ '':7}\<newline>'' @
           ''Expected params: {'' @ [CHR 0x22] @ ''geo_id'' @ [CHR 0x22] @ '':0}'')),
        \<lparr>routes = 1, interceptedRequest =
            Some ''https://search.vivastreet.co.uk/ajax/regions_tree.php?geo_id=7''\<rparr>)"
proof -
  have m: "\<not> matched (compareParams [(''geo_id'', Number (Integer 7))] [(''geo_id'', Number (Integer 15))])"
    by code_simp
  have d: "spec_differences [(''geo_id'', Number (Integer 7))] [(''geo_id'', Number (Integer 15))]
      = [''geo_id: expected 15, got 7'']"
    by code_simp
  have d0: "spec_differences [(''geo_id'', Number (Integer 7))] [(''geo_id'', Number (Integer 0))]
      = [''geo_id: expected 0, got 7'']"
    by code_simp
  have j7: "JSON_stringify [(''geo_id'', Number (Integer 7))] = ''{'' @ [CHR 0x22] @ ''geo_id'' @ [CHR 0x22] @ '':7}''"
    by code_simp
  have j0: "JSON_stringify [(''geo_id'', Number (Integer 0))] = ''{'' @ [CHR 0x22] @ ''geo_id'' @ [CHR 0x22] @ '':0}''"
    by code_simp
  show ?thesis
    using differences_iff_mismatch
        [of "[(''geo_id'', Number (Integer 7))]" "[(''geo_id'', Number (Integer 15))]"]
      differences_iff_mismatch
        [of "[(''geo_id'', Number (Integer 7))]" "[(''geo_id'', Number (Integer 0))]"
            "\<lparr>routes = 1, interceptedRequest =
                Some ''https://search.vivastreet.co.uk/ajax/regions_tree.php?geo_id=7''\<rparr>"
            "''https://search.vivastreet.co.uk/ajax/regions_tree.php?geo_id=7''"
            "\<lparr>category = None, location = Some [], keyword = None\<rparr>"]
      m d d0 j7 j0 example_url_params example_empty_location example_mismatch
    by simp
qed

section \<open>Lifecycle of the interception session\<close>

text \<open>
  C3. With no captured request, \<open>validateInterceptedRequest\<close> fails with the error that no
  request was intercepted and changes nothing. When it succeeds, a request was captured
  and the session is stopped: no route handler is left, the captured request is cleared,
  and a second call, with any expectation, fails with that same error.
\<close>

theorem validate_consumes_on_success:
  "(interceptedRequest s = None \<longrightarrow>
      validateInterceptedRequest expected s = (Inl (Error no_request_message), s))
   \<and> (fst (validateInterceptedRequest expected s) = Inr () \<longrightarrow>
        interceptedRequest s \<noteq> None \<and>
        snd (validateInterceptedRequest expected s) = s\<lparr>routes := 0, interceptedRequest := None\<rparr> \<and>
        validateInterceptedRequest expected' (snd (validateInterceptedRequest expected s))
          = (Inl (Error no_request_message), s\<lparr>routes := 0, interceptedRequest := None\<rparr>))"
proof (intro conjI impI)
  assume "interceptedRequest s = None"
  then show "validateInterceptedRequest expected s = (Inl (Error no_request_message), s)"
    by (simp add: validateInterceptedRequest_def)
next
  assume ok: "fst (validateInterceptedRequest expected s) = Inr ()"
  then show c: "interceptedRequest s \<noteq> None"
    by (cases "interceptedRequest s") (auto simp: validateInterceptedRequest_def)
  from ok c show st: "snd (validateInterceptedRequest expected s) = s\<lparr>routes := 0, interceptedRequest := None\<rparr>"
    by (auto simp: validateInterceptedRequest_def stopInterception_def Let_def
        split: option.splits sum.splits if_splits)
  show "validateInterceptedRequest expected' (snd (validateInterceptedRequest expected s))
          = (Inl (Error no_request_message), s\<lparr>routes := 0, interceptedRequest := None\<rparr>)"
    unfolding st by (simp add: validateInterceptedRequest_def)
qed

theorem validate_consumes_on_success_witness:
  "validateInterceptedRequest \<lparr>category = None, location = Some ''London'', keyword = None\<rparr>
      new_SearchValidatorHelper
     = (Inl (Error no_request_message), new_SearchValidatorHelper)
   \<and> validateInterceptedRequest \<lparr>category = None, location = Some ''London'', keyword = None\<rparr>
        (route_handler ''https://search.vivastreet.co.uk/ajax/regions_tree.php?geo_id=7''
          (startInterception new_SearchValidatorHelper))
     = (Inr (), \<lparr>routes = 0, interceptedRequest = None\<rparr>)
   \<and> validateInterceptedRequest \<lparr>category = None, location = Some ''London'', keyword = None\<rparr>
        \<lparr>routes = 0, interceptedRequest = None\<rparr>
     = (Inl (Error no_request_message), \<lparr>routes = 0, interceptedRequest = None\<rparr>)"
proof -
  have ok: "validateInterceptedRequest \<lparr>category = None, location = Some ''London'', keyword = None\<rparr>
        (route_handler ''https://search.vivastreet.co.uk/ajax/regions_tree.php?geo_id=7''
          (startInterception new_SearchValidatorHelper))
     = (Inr (), \<lparr>routes = 0, interceptedRequest = None\<rparr>)"
    by code_simp
  show ?thesis
    using validate_consumes_on_success
        [of new_SearchValidatorHelper
            "\<lparr>category = None, location = Some ''London'', keyword = None\<rparr>"]
      validate_consumes_on_success
        [of "route_handler ''https://search.vivastreet.co.uk/ajax/regions_tree.php?geo_id=7''
              (startInterception new_SearchValidatorHelper)"
            "\<lparr>category = None, location = Some ''London'', keyword = None\<rparr>"
            "\<lparr>category = None, location = Some ''London'', keyword = None\<rparr>"]
      ok
    by (simp add: new_SearchValidatorHelper_def route_handler_def startInterception_def)
qed

text \<open>
  The claim as stated also covers a validation that throws. There the clean-up is not
  reached: with the captured request \<open>geo_id=7\<close> and the expectation of the empty location
  (\<open>geo_id 0\<close>), the mismatch error leaves the handler and the captured request in place,
  and a second call does not fail for want of a request.
\<close>

theorem validate_mismatch_keeps_session:
  "interceptedRequest
      \<lparr>routes = 1, interceptedRequest =
          Some ''https://search.vivastreet.co.uk/ajax/regions_tree.php?geo_id=7''\<rparr> \<noteq> None
   \<and> snd (validateInterceptedRequest \<lparr>category = None, location = Some [], keyword = None\<rparr>
        \<lparr>routes = 1, interceptedRequest =
            Some ''https://search.vivastreet.co.uk/ajax/regions_tree.php?geo_id=7''\<rparr>)
     = \<lparr>routes = 1, interceptedRequest =
            Some ''https://search.vivastreet.co.uk/ajax/regions_tree.php?geo_id=7''\<rparr>
   \<and> fst (validateInterceptedRequest \<lparr>category = None, location = Some [], keyword = None\<rparr>
          (snd (validateInterceptedRequest \<lparr>category = None, location = Some [], keyword = None\<rparr>
            \<lparr>routes = 1, interceptedRequest =
                Some ''https://search.vivastreet.co.uk/ajax/regions_tree.php?geo_id=7''\<rparr>)))
     \<noteq> Inl (Error no_request_message)"
  by code_simp

section \<open>Unmapped category labels\<close>

text \<open>
  C4. A request whose category is a non-empty label that is neither an entry of the
  category registry nor a property name of \<open>Object.prototype\<close> fails in translation, with
  an error that names the label and tells where to add the mapping and how to find it.
\<close>

theorem unmapped_category_fails:
  "category request = Some c \<longrightarrow> c \<noteq> [] \<longrightarrow> c \<notin> fst ` set CATEGORY_MAPPINGS \<longrightarrow>
   c \<notin> set Object_prototype_keys \<longrightarrow>
     mapToAPIParams request =
       Inl (Error
         (''Category mapping not found for: '' @ [CHR 0x22] @ c @ [CHR 0x22] @ ''.\<newline>'' @
          ''Add mapping to api/mappings/category-mappings.ts\<newline>\<newline>'' @
          ''To find the mapping:\<newline>'' @
          ''1. Open browser DevTools '' @ [CHR 0xE2, CHR 0x86, CHR 0x92] @ '' Network tab\<newline>'' @
          ''2. Select '' @ [CHR 0x22] @ c @ [CHR 0x22] @ '' in UI\<newline>'' @
          ''3. Observe request to regions_tree.php\<newline>'' @
          ''4. Record cat_id and meta_code parameters''))"
proof (intro impI)
  assume c: "category request = Some c" and ne: "c \<noteq> []"
    and un: "c \<notin> fst ` set CATEGORY_MAPPINGS" and np: "c \<notin> set Object_prototype_keys"
  from un have "map_of CATEGORY_MAPPINGS c = None"
    by (simp add: map_of_eq_None_iff)
  with np have "getCategoryMapping c = Missing"
    by (simp add: getCategoryMapping_def lookup_def)
  with c ne show "mapToAPIParams request =
       Inl (Error
         (''Category mapping not found for: '' @ [CHR 0x22] @ c @ [CHR 0x22] @ ''.\<newline>'' @
          ''Add mapping to api/mappings/category-mappings.ts\<newline>\<newline>'' @
          ''To find the mapping:\<newline>'' @
          ''1. Open browser DevTools '' @ [CHR 0xE2, CHR 0x86, CHR 0x92] @ '' Network tab\<newline>'' @
          ''2. Select '' @ [CHR 0x22] @ c @ [CHR 0x22] @ '' in UI\<newline>'' @
          ''3. Observe request to regions_tree.php\<newline>'' @
          ''4. Record cat_id and meta_code parameters''))"
    by (simp add: mapToAPIParams_def map_category_def truthy_def category_not_found_def arrow_def)
qed

theorem unmapped_category_fails_witness:
  "mapToAPIParams \<lparr>category = Some ''Nonexistent Category'', location = None, keyword = None\<rparr> =
     Inl (Error
       (''Category mapping not found for: '' @ [CHR 0x22] @ ''Nonexistent Category'' @ [CHR 0x22] @
        ''.\<newline>'' @
        ''Add mapping to api/mappings/category-mappings.ts\<newline>\<newline>'' @
        ''To find the mapping:\<newline>'' @
        ''1. Open browser DevTools '' @ [CHR 0xE2, CHR 0x86, CHR 0x92] @ '' Network tab\<newline>'' @
        ''2. Select '' @ [CHR 0x22] @ ''Nonexistent Category'' @ [CHR 0x22] @ '' in UI\<newline>'' @
        ''3. Observe request to regions_tree.php\<newline>'' @
        ''4. Record cat_id and meta_code parameters''))"
  using unmapped_category_fails
      [of "\<lparr>category = Some ''Nonexistent Category'', location = None, keyword = None\<rparr>"
          "''Nonexistent Category''"]
  by (simp add: CATEGORY_MAPPINGS_def Object_prototype_keys_def)

text \<open>
  The claim as stated includes the empty string. The empty category has no entry in the
  registry, yet it is falsy, so the translator skips the category and succeeds with the
  empty parameter set.
\<close>

theorem empty_category_is_skipped:
  "map_of CATEGORY_MAPPINGS [] = None
   \<and> mapToAPIParams \<lparr>category = Some [], location = None, keyword = None\<rparr> = Inr []"
  by (simp add: translator_defs)

section \<open>Decoding a URL\<close>

lemma map_of_int_field:
  "map_of (int_field key params r) k =
     (if k = key \<and> truthy (map_of params k)
      then Some (Number (parseInt (the (map_of params k)))) else map_of r k)"
  by (auto simp add: int_field_def map_of_assign)

lemma map_of_str_field:
  "map_of (str_field key params r) k =
     (if k = key \<and> truthy (map_of params k)
      then Some (Str (the (map_of params k))) else map_of r k)"
  by (auto simp add: str_field_def map_of_assign)

lemma map_of_toSearchAPIParams_falsy:
  "\<not> truthy (map_of params k) \<Longrightarrow> map_of (toSearchAPIParams params) k = None"
  by (simp add: toSearchAPIParams_def map_of_int_field map_of_str_field)

lemma map_of_toSearchAPIParams_int:
  "k \<in> set integer_fields \<Longrightarrow> truthy (map_of params k) \<Longrightarrow>
   map_of (toSearchAPIParams params) k = Some (Number (parseInt (the (map_of params k))))"
  unfolding integer_fields_def set_simps
  by (elim insertE emptyE) (simp_all add: toSearchAPIParams_def map_of_int_field map_of_str_field)

lemma map_of_toSearchAPIParams_str:
  "k \<in> set string_fields \<Longrightarrow> truthy (map_of params k) \<Longrightarrow>
   map_of (toSearchAPIParams params) k = Some (Str (the (map_of params k)))"
  unfolding string_fields_def set_simps
  by (elim insertE emptyE) (simp_all add: toSearchAPIParams_def map_of_int_field map_of_str_field)

lemma map_of_toSearchAPIParams_other:
  "k \<notin> set integer_fields \<Longrightarrow> k \<notin> set string_fields \<Longrightarrow>
   map_of (toSearchAPIParams params) k = None"
  by (simp add: integer_fields_def string_fields_def toSearchAPIParams_def
      map_of_int_field map_of_str_field)

lemma example_empty_values:
  "parseQueryParams ''https://search.vivastreet.co.uk/ajax/regions_tree.php?meta_code=&country=&geo_id=7''
     = [(''meta_code'', []), (''country'', []), (''geo_id'', ''7'')]"
  by code_simp

text \<open>
  C10. A recognized parameter whose raw value is the empty string is absent from the
  decoded set: its key is no key of the result and reads \<open>undefined\<close>. No key of a decoded
  set ever holds the empty string.
\<close>

theorem empty_raw_value_is_absent:
  "(map_of params k = Some [] \<longrightarrow>
      k \<notin> fst ` set (toSearchAPIParams params) \<and> get (toSearchAPIParams params) k = Undefined)
   \<and> get (toSearchAPIParams params) k \<noteq> Str []"
proof (intro conjI impI)
  assume e: "map_of params k = Some []"
  from e have n: "map_of (toSearchAPIParams params) k = None"
    by (intro map_of_toSearchAPIParams_falsy) (simp add: truthy_def)
  then show "k \<notin> fst ` set (toSearchAPIParams params)"
    by (simp add: map_of_eq_None_iff)
  from n show "get (toSearchAPIParams params) k = Undefined"
    by (simp add: get_def)
next
  show "get (toSearchAPIParams params) k \<noteq> Str []"
  proof (cases "truthy (map_of params k)")
    case False
    then show ?thesis
      by (simp add: get_def map_of_toSearchAPIParams_falsy)
  next
    case True
    then have ne: "the (map_of params k) \<noteq> []"
      by (auto simp: truthy_def split: option.splits)
    show ?thesis
    proof (cases "k \<in> set integer_fields")
      case i: True
      show ?thesis
        by (simp only: get_def map_of_toSearchAPIParams_int [OF i True]) simp
    next
      case i: False
      show ?thesis
      proof (cases "k \<in> set string_fields")
        case s: True
        show ?thesis
          using ne by (simp only: get_def map_of_toSearchAPIParams_str [OF s True]) simp
      next
        case s: False
        show ?thesis
          by (simp only: get_def map_of_toSearchAPIParams_other [OF i s]) simp
      qed
    qed
  qed
qed

theorem empty_raw_value_is_absent_witness:
  "get (toSearchAPIParams
      (parseQueryParams ''https://search.vivastreet.co.uk/ajax/regions_tree.php?meta_code=&country=&geo_id=7''))
      ''meta_code'' = Undefined
   \<and> ''country'' \<notin> fst ` set (toSearchAPIParams
      (parseQueryParams ''https://search.vivastreet.co.uk/ajax/regions_tree.php?meta_code=&country=&geo_id=7''))"
  using empty_raw_value_is_absent
      [of "parseQueryParams ''https://search.vivastreet.co.uk/ajax/regions_tree.php?meta_code=&country=&geo_id=7''"
          "''meta_code''"]
    empty_raw_value_is_absent
      [of "parseQueryParams ''https://search.vivastreet.co.uk/ajax/regions_tree.php?meta_code=&country=&geo_id=7''"
          "''country''"]
  by (simp add: example_empty_values)


















section \<open>Round trip through the URL\<close>

lemma list_all_assign:
  "list_all P obj \<Longrightarrow> P (k, v) \<Longrightarrow> list_all P (assign k v obj)"
  unfolding assign_def by (induction obj) auto

lemma list_all_spread:
  "list_all P a \<Longrightarrow> list_all P b \<Longrightarrow> list_all P (spread a b)"
  unfolding spread_def
  by (induction b arbitrary: a) (auto simp: list_all_assign)

lemma valid_defaults: "list_all valid_entry DEFAULT_API_PARAMS"
  by (simp add: DEFAULT_API_PARAMS_def integer_fields_def string_fields_def safe_integer_def)

lemma valid_entry_defined: "valid_entry (k, v) \<Longrightarrow> v \<noteq> Undefined"
  by (cases v) auto

lemma valid_entry_key:
  "valid_entry (k, v) \<Longrightarrow> k \<in> set integer_fields \<or> k \<in> set string_fields"
  by (cases "(k, v)" rule: valid_entry.cases) auto

lemma recognized_not_proto:
  "k \<in> set integer_fields \<or> k \<in> set string_fields \<Longrightarrow> k \<noteq> ''__proto__''"
  by (auto simp: integer_fields_def string_fields_def)

lemma to_string_nonempty: "valid_entry (k, v) \<Longrightarrow> to_string v \<noteq> []"
  by (cases "(k, v)" rule: valid_entry.cases) (auto simp: number_to_string_nonempty simp del: number_to_string.simps)

lemma toSearchAPIParams_valid_entry:
  assumes "valid_entry (k, v)" and "map_of params k = Some (to_string v)"
  shows "map_of (toSearchAPIParams params) k = Some v"
proof -
  have t: "truthy (map_of params k)"
    using assms to_string_nonempty by (simp add: truthy_def)
  from assms(1) show ?thesis
  proof (cases "(k, v)" rule: valid_entry.cases)
    case (1 k' i)
    then have "k \<in> set integer_fields" and v: "v = Number (Integer i)"
      using assms(1) by auto
    then show ?thesis
      using map_of_toSearchAPIParams_int [OF _ t] assms(2)
      by (simp add: parseInt_number_to_string del: number_to_string.simps)
  next
    case (2 k' s)
    then have "k \<in> set string_fields" and v: "v = Str s"
      using assms(1) by auto
    then show ?thesis
      using map_of_toSearchAPIParams_str [OF _ t] assms(2)
      by simp
  qed auto
qed

text \<open>
  C1. For a parameter set with valid values (distinct recognized keys, safe integers in
  the integer fields, non-empty strings in the string fields), decoding the URL built from
  it yields the set merged over the defaults \<open>summary 1\<close>, \<open>country GB\<close>,
  \<open>country_id GB\<close>, the fields of the set taking precedence. Equality is that of
  parameter sets: the same keys with the same values.
\<close>

theorem round_trip:
  assumes "valid_params p"
  shows "map_of (toSearchAPIParams (parseQueryParams (buildSearchAPIUrl p)))
       = map_of (spread DEFAULT_API_PARAMS p)"
proof -
  let ?m = "spread DEFAULT_API_PARAMS p"
  let ?sp = "map (\<lambda>(key, v). (key, to_string v)) ?m"
  have d: "distinct (map fst ?m)"
    by (rule distinct_spread [OF distinct_defaults])
  have v: "list_all valid_entry ?m"
    using assms by (intro list_all_spread valid_defaults) (simp add: valid_params_def)
  then have ve: "valid_entry (k, x)" if "(k, x) \<in> set ?m" for k x
    using that by (auto simp: list_all_iff)
  have "filter (\<lambda>(key, v). v \<noteq> Undefined) ?m = ?m"
    using ve by (auto simp: filter_id_conv dest: valid_entry_defined)
  then have sp: "search_params p = ?sp"
    by (simp add: search_params_eq)
  have keys: "map fst ?sp = map fst ?m"
    by (simp add: comp_def case_prod_unfold)
  have np: "''__proto__'' \<notin> fst ` set ?sp"
  proof
    have "fst ` set ?sp = set (map fst ?sp)"
      by (simp only: set_map)
    also have "\<dots> = fst ` set ?m"
      by (simp only: keys set_map)
    finally have ks: "fst ` set ?sp = fst ` set ?m" .
    assume "''__proto__'' \<in> fst ` set ?sp"
    then have "''__proto__'' \<in> fst ` set ?m"
      by (simp only: ks)
    then obtain x where "(''__proto__'', x) \<in> set ?m"
      by auto
    from valid_entry_key [OF ve [OF this]] show False
      using recognized_not_proto by blast
  qed
  have pq: "parseQueryParams (buildSearchAPIUrl p) = ?sp"
    using parseQueryParams_buildSearchAPIUrl [of p] d np
    by (simp only: sp keys) simp
  have m: "map_of ?sp = map_option to_string \<circ> map_of ?m"
    by (rule map_of_map)
  show ?thesis
  proof
    fix k
    show "map_of (toSearchAPIParams (parseQueryParams (buildSearchAPIUrl p))) k = map_of ?m k"
    proof (cases "map_of ?m k")
      case None
      then have "\<not> truthy (map_of ?sp k)"
        by (simp add: m truthy_def)
      then have "map_of (toSearchAPIParams ?sp) k = None"
        by (rule map_of_toSearchAPIParams_falsy)
      then show ?thesis
        by (simp only: pq None)
    next
      case (Some x)
      then have "valid_entry (k, x)"
        by (intro ve map_of_SomeD)
      moreover have "map_of ?sp k = Some (to_string x)"
        by (simp add: m Some)
      ultimately have "map_of (toSearchAPIParams ?sp) k = Some x"
        by (rule toSearchAPIParams_valid_entry)
      then show ?thesis
        by (simp only: pq Some)
    qed
  qed
qed

theorem round_trip_witness:
  "valid_params [(''cat_id'', Number (Integer 88)), (''meta_code'', Str ''adult_services''),
                 (''geo_id'', Number (Integer 7)), (''country'', Str ''FR'')]
   \<and> map_of (toSearchAPIParams (parseQueryParams (buildSearchAPIUrl
          [(''cat_id'', Number (Integer 88)), (''meta_code'', Str ''adult_services''),
           (''geo_id'', Number (Integer 7)), (''country'', Str ''FR'')])))
     = map_of [(''summary'', Number (Integer 1)), (''country'', Str ''FR''),
               (''country_id'', Str ''GB''), (''cat_id'', Number (Integer 88)),
               (''meta_code'', Str ''adult_services''), (''geo_id'', Number (Integer 7))]"
proof -
  have v: "valid_params [(''cat_id'', Number (Integer 88)), (''meta_code'', Str ''adult_services''),
                 (''geo_id'', Number (Integer 7)), (''country'', Str ''FR'')]"
    by (simp add: valid_params_def integer_fields_def string_fields_def safe_integer_def)
  have s: "spread DEFAULT_API_PARAMS
      [(''cat_id'', Number (Integer 88)), (''meta_code'', Str ''adult_services''),
       (''geo_id'', Number (Integer 7)), (''country'', Str ''FR'')]
     = [(''summary'', Number (Integer 1)), (''country'', Str ''FR''),
        (''country_id'', Str ''GB''), (''cat_id'', Number (Integer 88)),
        (''meta_code'', Str ''adult_services''), (''geo_id'', Number (Integer 7))]"
    by (simp add: spread_def assign_def DEFAULT_API_PARAMS_def)
  from round_trip [OF v] v show ?thesis
    by (simp only: s)
qed

text \<open>
  The claim as stated takes every value of a field's type as valid. The empty string is a
  string, and a set holding it does not come back: the builder writes \<open>meta_code=\<close> and
  the decoder drops the empty value.
\<close>

theorem round_trip_empty_string:
  "map_of (toSearchAPIParams (parseQueryParams (buildSearchAPIUrl [(''meta_code'', Str [])])))
     \<noteq> map_of (spread DEFAULT_API_PARAMS [(''meta_code'', Str [])])"
proof -
  have "get (toSearchAPIParams (parseQueryParams (buildSearchAPIUrl [(''meta_code'', Str [])]))) ''meta_code''
      = Undefined"
    by code_simp
  moreover have "get (spread DEFAULT_API_PARAMS [(''meta_code'', Str [])]) ''meta_code'' = Str []"
    by code_simp
  ultimately show ?thesis
    by (auto simp: get_def)
qed

end
